theory Spec2Isabelle
  imports Complex_Main
begin

section \<open>Tensors\<close>

text \<open>
  The plant of \<^verbatim>\<open>src/plants/robots/robots_sys.py\<close> computes on torch tensors.  A tensor is
  modelled by its shape, its strides and its entries in logical (row-major) order.  Entries
  are real numbers: rounding of the float32 arithmetic is not modelled.  Strides are only
  read by \<^verbatim>\<open>view\<close>, which refuses an input whose memory layout does not fit the
  requested shape; every operation that allocates its result yields contiguous strides.
  Data types and devices are not modelled (all tensors are floating point on one device).
\<close>

datatype error = RuntimeError | IndexError | AssertionError | UnboundLocalError | TypeError

record tensor =
  shape :: "nat list"
  strides :: "nat list"
  elems :: "real list"

primrec bind_err :: "error + 'a \<Rightarrow> ('a \<Rightarrow> error + 'b) \<Rightarrow> error + 'b" where
  "bind_err (Inl e) f = Inl e"
| "bind_err (Inr x) f = f x"

fun contiguous_strides :: "nat list \<Rightarrow> nat list" where
  "contiguous_strides [] = []"
| "contiguous_strides (n # ns) = prod_list (map (max 1) ns) # contiguous_strides ns"

definition contiguous :: "nat list \<Rightarrow> real list \<Rightarrow> tensor" where
  "contiguous sh xs = \<lparr>shape = sh, strides = contiguous_strides sh, elems = xs\<rparr>"

text \<open>\<open>pieces m k xs\<close> cuts the first \<open>m * k\<close> entries of \<open>xs\<close> into \<open>m\<close> rows of \<open>k\<close>.\<close>

primrec pieces :: "nat \<Rightarrow> nat \<Rightarrow> 'a list \<Rightarrow> 'a list list" where
  "pieces 0 k xs = []"
| "pieces (Suc m) k xs = take k xs # pieces m k (drop k xs)"

definition dot :: "real list \<Rightarrow> real list \<Rightarrow> real" where
  "dot xs ys = sum_list (map (\<lambda>(x, y). x * y) (zip xs ys))"

subsection \<open>Views\<close>

text \<open>
  \<^verbatim>\<open>Tensor.view\<close> first infers the dimension written \<^verbatim>\<open>-1\<close> from the number of entries
  (\<^verbatim>\<open>infer_size\<close>), then asks whether the new shape can be laid over the old strides
  (\<^verbatim>\<open>computeStride\<close>): the old dimensions are grouped, innermost first, into chunks that are
  contiguous in memory, and each chunk must be covered exactly by a run of new dimensions.
  Both failures are a \<^verbatim>\<open>RuntimeError\<close>.
\<close>

fun take_view_dims :: "nat list \<Rightarrow> nat \<Rightarrow> nat \<Rightarrow> nat \<Rightarrow> nat list \<Rightarrow> nat list \<times> nat \<times> nat list" where
  "take_view_dims [] base tn vn acc = ([], vn, acc)"
| "take_view_dims (d # ds) base tn vn acc =
     (if vn < tn \<or> d = 1 then take_view_dims ds base tn (vn * d) ((vn * base) # acc)
      else (d # ds, vn, acc))"

fun stride_loop :: "(nat \<times> nat) list \<Rightarrow> nat list \<Rightarrow> nat \<Rightarrow> nat \<Rightarrow> nat list \<Rightarrow> nat list option" where
  "stride_loop [] vds base tn acc = (if vds = [] then Some acc else None)"
| "stride_loop ((sz, st) # rest) vds base tn acc =
     (case rest of
        [] \<Rightarrow>
          (case take_view_dims vds base (tn * sz) 1 acc of
             (vds', vn, acc') \<Rightarrow> if vn = tn * sz \<and> vds' = [] then Some acc' else None)
      | (sz', st') # _ \<Rightarrow>
          if sz' \<noteq> 1 \<and> st' \<noteq> tn * sz * base then
            (case take_view_dims vds base (tn * sz) 1 acc of
               (vds', vn, acc') \<Rightarrow>
                 if vn = tn * sz then stride_loop rest vds' st' 1 acc' else None)
          else stride_loop rest vds base (tn * sz) acc)"

definition compute_stride :: "nat list \<Rightarrow> nat list \<Rightarrow> nat list \<Rightarrow> nat list option" where
  "compute_stride oldshape oldstride newshape =
     (if oldshape = [] then Some (replicate (length newshape) 1)
      else if prod_list oldshape = 0 then
        (if oldshape = newshape then Some oldstride else Some (contiguous_strides newshape))
      else stride_loop (rev (zip oldshape oldstride)) (rev newshape) (last oldstride) 1 [])"

text \<open>\<open>view_m1 rest t\<close> is \<^verbatim>\<open>t.view(-1, *rest)\<close>.\<close>

definition view_m1 :: "nat list \<Rightarrow> tensor \<Rightarrow> error + tensor" where
  "view_m1 rest t =
     (let newsize = prod_list rest; n = prod_list (shape t) in
      if newsize = 0 \<or> n mod newsize \<noteq> 0 then Inl RuntimeError
      else
        (case compute_stride (shape t) (strides t) ((n div newsize) # rest) of
           None \<Rightarrow> Inl RuntimeError
         | Some st \<Rightarrow> Inr \<lparr>shape = (n div newsize) # rest, strides = st, elems = elems t\<rparr>))"

text \<open>
  \<open>reshape_1_m1 t\<close> is \<^verbatim>\<open>t.reshape(1, -1)\<close>: it never fails (the other dimensions
  multiply to 1), and returns a view or a copy with the same entries in the same order.
  Its strides are recorded as contiguous; no view is ever taken of such a result.
\<close>

definition reshape_1_m1 :: "tensor \<Rightarrow> tensor" where
  "reshape_1_m1 t = contiguous [1, prod_list (shape t)] (elems t)"

subsection \<open>Constructors\<close>

definition torch_zeros :: "nat list \<Rightarrow> tensor" where
  "torch_zeros sh = contiguous sh (replicate (prod_list sh) 0)"

definition torch_ones :: "nat list \<Rightarrow> tensor" where
  "torch_ones sh = contiguous sh (replicate (prod_list sh) 1)"

definition diag_rows :: "real list \<Rightarrow> real list" where
  "diag_rows r =
     concat (map (\<lambda>i. map (\<lambda>j. if i = j then r ! i else 0) [0..<length r]) [0..<length r])"

definition torch_eye :: "nat \<Rightarrow> tensor" where
  "torch_eye n = contiguous [n, n] (diag_rows (replicate n 1))"

text \<open>\<^verbatim>\<open>torch.diag\<close> of a vector is the square matrix with that diagonal.\<close>

definition torch_diag :: "real list \<Rightarrow> tensor" where
  "torch_diag r = contiguous [length r, length r] (diag_rows r)"

text \<open>
  \<^verbatim>\<open>torch.diag_embed(t, offset=0, dim1=-2, dim2=-1)\<close>: every row along the last
  dimension becomes a diagonal matrix.
\<close>

definition diag_embed :: "tensor \<Rightarrow> error + tensor" where
  "diag_embed t =
     (if shape t = [] then Inl RuntimeError
      else Inr (contiguous (shape t @ [last (shape t)])
             (concat (map diag_rows
                (pieces (prod_list (butlast (shape t))) (last (shape t)) (elems t))))))"

text \<open>\<^verbatim>\<open>t.squeeze(dim=-1)\<close> drops the last dimension when it has size 1.\<close>

definition squeeze_last :: "tensor \<Rightarrow> tensor" where
  "squeeze_last t =
     (if shape t \<noteq> [] \<and> last (shape t) = 1
      then \<lparr>shape = butlast (shape t), strides = butlast (strides t), elems = elems t\<rparr>
      else t)"

subsection \<open>Arithmetic with broadcasting\<close>

definition pad_shape :: "nat \<Rightarrow> nat list \<Rightarrow> nat list" where
  "pad_shape r s = replicate (r - length s) 1 @ s"

fun broadcast_shapes :: "nat list \<Rightarrow> nat list \<Rightarrow> nat list option" where
  "broadcast_shapes [] [] = Some []"
| "broadcast_shapes (m # ms) (n # ns) =
     (if m = n \<or> n = 1 then map_option ((#) m) (broadcast_shapes ms ns)
      else if m = 1 then map_option ((#) n) (broadcast_shapes ms ns)
      else None)"
| "broadcast_shapes _ _ = None"

fun broadcast_map ::
  "(real \<Rightarrow> real \<Rightarrow> real) \<Rightarrow> nat list \<Rightarrow> nat list \<Rightarrow> real list \<Rightarrow> real list \<Rightarrow> real list" where
  "broadcast_map f (m # ms) (n # ns) xs ys =
     (if n = 1 then
        concat (map (\<lambda>x. broadcast_map f ms ns x (take (prod_list ns) ys))
          (pieces m (prod_list ms) xs))
      else if m = 1 then
        concat (map (\<lambda>y. broadcast_map f ms ns (take (prod_list ms) xs) y)
          (pieces n (prod_list ns) ys))
      else
        concat (map (\<lambda>(x, y). broadcast_map f ms ns x y)
          (zip (pieces m (prod_list ms) xs) (pieces n (prod_list ns) ys))))"
| "broadcast_map f _ _ xs ys = map (\<lambda>(x, y). f x y) (zip xs ys)"

text \<open>
  An elementwise binary operation: the shorter shape is padded with leading ones, sizes
  must agree or be 1, and the result is freshly allocated.
\<close>

definition broadcast_op :: "(real \<Rightarrow> real \<Rightarrow> real) \<Rightarrow> tensor \<Rightarrow> tensor \<Rightarrow> error + tensor" where
  "broadcast_op f a b =
     (let r = max (length (shape a)) (length (shape b));
          sa = pad_shape r (shape a); sb = pad_shape r (shape b) in
      case broadcast_shapes sa sb of
        None \<Rightarrow> Inl RuntimeError
      | Some s \<Rightarrow> Inr (contiguous s (broadcast_map f sa sb (elems a) (elems b))))"

definition tensor_add :: "tensor \<Rightarrow> tensor \<Rightarrow> error + tensor" where
  "tensor_add = broadcast_op (+)"

definition tensor_sub :: "tensor \<Rightarrow> tensor \<Rightarrow> error + tensor" where
  "tensor_sub = broadcast_op (-)"

definition tensor_mul :: "tensor \<Rightarrow> tensor \<Rightarrow> error + tensor" where
  "tensor_mul = broadcast_op (*)"

text \<open>A Python number times a tensor.\<close>

definition smul :: "real \<Rightarrow> tensor \<Rightarrow> tensor" where
  "smul c t = t\<lparr>elems := map ((*) c) (elems t)\<rparr>"

subsection \<open>Concatenation\<close>

fun cat_map :: "nat \<Rightarrow> nat list \<Rightarrow> nat list \<Rightarrow> real list \<Rightarrow> real list \<Rightarrow> real list" where
  "cat_map (Suc d) (m # ms) (n # ns) xs ys =
     concat (map (\<lambda>(x, y). cat_map d ms ns x y)
       (zip (pieces m (prod_list ms) xs) (pieces n (prod_list ns) ys)))"
| "cat_map _ _ _ xs ys = xs @ ys"

text \<open>
  \<^verbatim>\<open>torch.cat((a, b), d)\<close>: both tensors have the same rank and the same sizes outside
  dimension \<open>d\<close>.
\<close>

definition torch_cat :: "tensor \<Rightarrow> tensor \<Rightarrow> nat \<Rightarrow> error + tensor" where
  "torch_cat a b d =
     (if length (shape a) = length (shape b) \<and> d < length (shape a)
         \<and> take d (shape a) = take d (shape b)
         \<and> drop (Suc d) (shape a) = drop (Suc d) (shape b)
      then Inr (contiguous ((shape a)[d := shape a ! d + shape b ! d])
             (cat_map d (shape a) (shape b) (elems a) (elems b)))
      else Inl RuntimeError)"

subsection \<open>Linear algebra\<close>

text \<open>
  \<^verbatim>\<open>F.linear(input, weight)\<close> multiplies every row of \<open>input\<close> along its last dimension
  by the transpose of \<open>weight\<close>, a matrix of shape (out, in).  The weights of this program
  are the matrices \<^verbatim>\<open>A_lin\<close> and \<^verbatim>\<open>B\<close>; a weight of another rank is outside the model.
\<close>

definition F_linear :: "tensor \<Rightarrow> tensor \<Rightarrow> error + tensor" where
  "F_linear inp W =
     (case shape W of
        [out, n] \<Rightarrow>
          if shape inp = [] \<or> last (shape inp) \<noteq> n then Inl RuntimeError
          else Inr (contiguous (butlast (shape inp) @ [out])
                 (concat (map (\<lambda>row. map (dot row) (pieces out n (elems W)))
                    (pieces (prod_list (butlast (shape inp))) n (elems inp)))))
      | _ \<Rightarrow> Inl RuntimeError)"

text \<open>
  \<^verbatim>\<open>t.transpose(1, 2)\<close> swaps dimensions 1 and 2 (sizes and strides); on a tensor of rank
  below 3 the dimension is out of range.
\<close>

definition transpose12 :: "tensor \<Rightarrow> error + tensor" where
  "transpose12 t =
     (case (shape t, strides t) of
        (b # n # m # rest, s0 # s1 # s2 # srest) \<Rightarrow>
          (let r = prod_list rest in
           Inr \<lparr>shape = b # m # n # rest, strides = s0 # s2 # s1 # srest,
                elems = concat (map (\<lambda>blk.
                  concat (map (\<lambda>j. concat (map (\<lambda>row. take r (drop (j * r) row))
                                             (pieces n (m * r) blk))) [0..<m]))
                  (pieces b (n * m * r) (elems t)))\<rparr>)
      | _ \<Rightarrow> Inl IndexError)"

text \<open>
  \<^verbatim>\<open>torch.bmm(a, b)\<close>: both arguments have rank 3, the same batch size and matching
  inner sizes; each batch entry is an ordinary matrix product.  Nothing is broadcast.
\<close>

definition matmul :: "nat \<Rightarrow> nat \<Rightarrow> nat \<Rightarrow> real list \<Rightarrow> real list \<Rightarrow> real list" where
  "matmul n m q a b =
     concat (map (\<lambda>row. map (\<lambda>j. dot row (map (\<lambda>brow. brow ! j) (pieces m q b))) [0..<q])
       (pieces n m a))"

definition bmm :: "tensor \<Rightarrow> tensor \<Rightarrow> error + tensor" where
  "bmm a b =
     (case (shape a, shape b) of
        ([ba, n, m], [bb, m', q]) \<Rightarrow>
          if ba = bb \<and> m = m' then
            Inr (contiguous [ba, n, q]
              (concat (map (\<lambda>(x, y). matmul n m q x y)
                 (zip (pieces ba (n * m) (elems a)) (pieces bb (m * q) (elems b))))))
          else Inl RuntimeError
      | _ \<Rightarrow> Inl RuntimeError)"

text \<open>
  \<^verbatim>\<open>torch.norm(t, dim=-1, keepdim=True)\<close>: the Euclidean norm of every row along the last
  dimension, which is kept with size 1.
\<close>

definition torch_norm_last :: "tensor \<Rightarrow> tensor" where
  "torch_norm_last t =
     (if shape t = [] then contiguous [] (map abs (elems t))
      else contiguous (butlast (shape t) @ [1])
             (map (\<lambda>row. sqrt (sum_list (map (\<lambda>v. v * v) row)))
                (pieces (prod_list (butlast (shape t))) (last (shape t)) (elems t))))"

text \<open>
  \<^verbatim>\<open>torch.kron(a, b)\<close>: ranks are aligned with leading ones, sizes multiply, and entry
  \<open>(i\<^sub>0 * n\<^sub>0 + j\<^sub>0, i\<^sub>1 * n\<^sub>1 + j\<^sub>1, ...)\<close> of the result is \<open>a[i] * b[j]\<close>.
\<close>

fun kron_map :: "nat list \<Rightarrow> nat list \<Rightarrow> real list \<Rightarrow> real list \<Rightarrow> real list" where
  "kron_map (m # ms) (n # ns) xs ys =
     concat (map (\<lambda>x. concat (map (\<lambda>y. kron_map ms ns x y) (pieces n (prod_list ns) ys)))
       (pieces m (prod_list ms) xs))"
| "kron_map _ _ xs ys = concat (map (\<lambda>x. map (\<lambda>y. x * y) ys) xs)"

definition torch_kron :: "tensor \<Rightarrow> tensor \<Rightarrow> tensor" where
  "torch_kron a b =
     (let r = max (length (shape a)) (length (shape b));
          sa = pad_shape r (shape a); sb = pad_shape r (shape b) in
      contiguous (map (\<lambda>(m, n). m * n) (zip sa sb)) (kron_map sa sb (elems a) (elems b)))"

text \<open>
  \<^verbatim>\<open>t.repeat(r, 1, 1)\<close>: a tensor of rank at most 3 is read with leading dimensions of
  size 1 and tiled \<open>r\<close> times along the first; a tensor of higher rank is refused.
\<close>

definition repeat_b11 :: "nat \<Rightarrow> tensor \<Rightarrow> error + tensor" where
  "repeat_b11 r t =
     (case pad_shape 3 (shape t) of
        [s0, s1, s2] \<Rightarrow> Inr (contiguous [r * s0, s1, s2] (concat (replicate r (elems t))))
      | _ \<Rightarrow> Inl RuntimeError)"

text \<open>
  \<^verbatim>\<open>data[:, t:t+1, :]\<close>: three indices need a tensor of rank at least 3
  (\<^verbatim>\<open>IndexError\<close> otherwise).  The slice keeps the strides of \<open>data\<close>, and is empty along
  dimension 1 when \<open>t\<close> is past its end.
\<close>

definition slice_time :: "tensor \<Rightarrow> nat \<Rightarrow> error + tensor" where
  "slice_time data t =
     (case shape data of
        b # T # d # rest \<Rightarrow>
          (let r = prod_list (d # rest) in
           Inr \<lparr>shape = b # (if t < T then 1 else 0) # d # rest, strides = strides data,
                elems = concat (map (\<lambda>blk. take r (drop (t * r) blk))
                                 (pieces b (T * r) (elems data)))\<rparr>)
      | _ \<Rightarrow> Inl IndexError)"

section \<open>The plant\<close>

text \<open>
  The fields of \<^verbatim>\<open>RobotsSystem\<close>.  The one-letter attributes \<^verbatim>\<open>h\<close>, \<^verbatim>\<open>k\<close>, \<^verbatim>\<open>b\<close>,
  \<^verbatim>\<open>b2\<close> and \<^verbatim>\<open>B\<close> are the fields \<open>step_h\<close>, \<open>gain_k\<close>, \<open>damp_b\<close>, \<open>fric_b2\<close> and
  \<open>B_in\<close>.
\<close>

record plant =
  linear_plant :: bool
  xbar :: tensor
  x_init :: tensor
  u_init :: tensor
  state_dim :: nat
  in_dim :: nat
  step_h :: real
  mass :: real
  gain_k :: real
  damp_b :: real
  fric_b2 :: "real option"
  B_in :: tensor
  A_lin :: tensor
  mask :: tensor

text \<open>Lines 41 to 44: \<^verbatim>\<open>torch.tensor([[0, 0], [0., 0], [1/m, 0], [0, 1/m]]) * self.h\<close>.\<close>

definition compute_B :: "real \<Rightarrow> real \<Rightarrow> tensor" where
  "compute_B hh m = smul hh (contiguous [4, 2] [0, 0, 0, 0, 1 / m, 0, 0, 1 / m])"

text \<open>Lines 46 to 54: \<^verbatim>\<open>_A1 + self.h * _A2\<close>, with \<^verbatim>\<open>_A2\<close> assembled from four blocks.\<close>

definition compute_A_lin :: "real \<Rightarrow> real \<Rightarrow> real \<Rightarrow> real \<Rightarrow> error + tensor" where
  "compute_A_lin hh m kk bb =
     bind_err (torch_cat (torch_zeros [2, 2]) (torch_eye 2) 1) (\<lambda>top.
     bind_err (torch_cat (torch_diag [- kk / m, - kk / m]) (torch_diag [- bb / m, - bb / m]) 1)
       (\<lambda>bottom.
     bind_err (torch_cat top bottom 0) (\<lambda>A2.
     tensor_add (torch_eye 4) (smul hh A2))))"

text \<open>
  \<^verbatim>\<open>__init__\<close>.  The arguments \<^verbatim>\<open>x_init\<close> and \<^verbatim>\<open>u_init\<close> are optional.  Line 27 calls
  \<^verbatim>\<open>u_init.reshape(1, -1)\<close> and drops the result, so a given \<^verbatim>\<open>u_init\<close> is stored with
  the shape it came with.  Line 32 asserts on \<^verbatim>\<open>shape[1]\<close> of \<^verbatim>\<open>xbar\<close> and
  \<^verbatim>\<open>x_init\<close> (both of rank 2 after the reshape); line 33 reads \<^verbatim>\<open>self.u_init.shape[1]\<close>,
  an \<^verbatim>\<open>IndexError\<close> on a tensor of rank below 2.
\<close>

definition init :: "tensor \<Rightarrow> bool \<Rightarrow> tensor option \<Rightarrow> tensor option \<Rightarrow> real \<Rightarrow> error + plant" where
  "init xbar0 lin x_init0 u_init0 k0 =
     (let xb = reshape_1_m1 xbar0;
          xi = (case x_init0 of None \<Rightarrow> xb | Some t \<Rightarrow> reshape_1_m1 t);
          ui = (case u_init0 of
                  None \<Rightarrow> torch_zeros [1, (shape xb ! 1) div 2]
                | Some t \<Rightarrow> t) in
      if \<not> (shape xb ! 1 = 4 \<and> shape xi ! 1 = 4) then Inl AssertionError
      else if length (shape ui) < 2 then Inl IndexError
      else if shape ui ! 1 \<noteq> 2 then Inl AssertionError
      else
        bind_err (compute_A_lin 0.05 1 k0 1) (\<lambda>A.
          Inr \<lparr>linear_plant = lin, xbar = xb, x_init = xi, u_init = ui,
               state_dim = 4, in_dim = 2, step_h = 0.05, mass = 1, gain_k = k0, damp_b = 1,
               fric_b2 = (if lin then None else Some 0.1),
               B_in = compute_B 0.05 1, A_lin = A,
               mask = contiguous [2, 2] [0, 0, 1, 1]\<rparr>))"

text \<open>
  \<^verbatim>\<open>A_nonlin\<close>, lines 58 to 70, in three parts: \<open>A3_norm\<close> is the norm of lines 60
  to 62, \<open>A3_kron\<close> the Kronecker product of lines 63 to 65, and \<open>A_nonlin\<close> the whole
  method.  The assertion fails on a linear plant; \<^verbatim>\<open>-self.b2\<close> on the \<^verbatim>\<open>None\<close> of a
  linear plant would be a \<^verbatim>\<open>TypeError\<close>.
\<close>

definition A3_norm :: "plant \<Rightarrow> tensor \<Rightarrow> error + tensor" where
  "A3_norm p x =
     bind_err (view_m1 [2, 2] x) (\<lambda>xv.
     bind_err (tensor_mul xv (mask p)) (\<lambda>xm.
     Inr (torch_norm_last xm)))"

definition A3_kron :: "tensor \<Rightarrow> tensor" where
  "A3_kron A3 = torch_kron A3 (torch_ones [2, 1])"

definition A_nonlin :: "plant \<Rightarrow> tensor \<Rightarrow> error + tensor" where
  "A_nonlin p x =
     (if linear_plant p then Inl AssertionError
      else
        bind_err (A3_norm p x) (\<lambda>A3.
        (let A3' = A3_kron A3 in
         case fric_b2 p of
           None \<Rightarrow> Inl TypeError
         | Some b2 \<Rightarrow>
             bind_err (diag_embed (squeeze_last A3')) (\<lambda>D.
             tensor_add (A_lin p) (smul (step_h p) (smul (- b2 / mass p) D))))))"

text \<open>\<^verbatim>\<open>noiseless_forward\<close>, lines 72 to 91.  The time step \<open>t\<close> is not used.\<close>

definition noiseless_forward :: "plant \<Rightarrow> nat \<Rightarrow> tensor \<Rightarrow> tensor \<Rightarrow> error + tensor" where
  "noiseless_forward p t x u =
     bind_err (view_m1 [1, state_dim p] x) (\<lambda>x.
     bind_err (view_m1 [1, in_dim p] u) (\<lambda>u.
     if linear_plant p then
       bind_err (tensor_sub x (xbar p)) (\<lambda>d.
       bind_err (F_linear d (A_lin p)) (\<lambda>a.
       bind_err (F_linear u (B_in p)) (\<lambda>bu.
       bind_err (tensor_add a bu) (\<lambda>s.
       tensor_add s (xbar p)))))
     else
       bind_err (tensor_sub x (xbar p)) (\<lambda>d.
       bind_err (A_nonlin p x) (\<lambda>A.
       bind_err (transpose12 A) (\<lambda>At.
       bind_err (bmm d At) (\<lambda>m.
       bind_err (F_linear u (B_in p)) (\<lambda>bu.
       bind_err (tensor_add m bu) (\<lambda>s.
       tensor_add s (xbar p)))))))))"

text \<open>\<^verbatim>\<open>forward\<close>, line 104.\<close>

definition forward :: "plant \<Rightarrow> nat \<Rightarrow> tensor \<Rightarrow> tensor \<Rightarrow> tensor \<Rightarrow> error + tensor" where
  "forward p t x u w =
     bind_err (noiseless_forward p t x u) (\<lambda>f.
     bind_err (view_m1 [1, state_dim p] w) (\<lambda>wv.
     tensor_add f wv))"

section \<open>Rollout\<close>

text \<open>
  The controller is an object of the caller with a state of its own: \<^verbatim>\<open>reset()\<close>
  changes that state, and a call \<^verbatim>\<open>controller(t, x)\<close> returns the input and the new
  state.  Controllers are taken not to raise.
\<close>

record 's controller =
  reset :: "'s \<Rightarrow> 's"
  call :: "nat \<Rightarrow> tensor \<Rightarrow> 's \<Rightarrow> tensor \<times> 's"

text \<open>
  The loop of \<^verbatim>\<open>rollout\<close> over \<^verbatim>\<open>range(data.shape[1])\<close>.  Its state is the current
  \<open>x\<close> and \<open>u\<close>, the logs (unbound before the first iteration) and the controller's state;
  an exception leaves the loop with the controller's state of that moment.
\<close>

type_synonym 's loop_state = "tensor \<times> tensor \<times> (tensor \<times> tensor) option \<times> 's"

fun simulate ::
  "plant \<Rightarrow> 's controller \<Rightarrow> tensor \<Rightarrow> nat list \<Rightarrow> 's loop_state \<Rightarrow> error \<times> 's + 's loop_state" where
  "simulate p c data [] st = Inr st"
| "simulate p c data (t # ts) (x, u, lg, s) =
     (case bind_err (slice_time data t) (forward p t x u) of
        Inl e \<Rightarrow> Inl (e, s)
      | Inr x' \<Rightarrow>
          (case call c t x' s of
             (u', s') \<Rightarrow>
               if t = 0 then simulate p c data ts (x', u', Some (x', u'), s')
               else
                 (case lg of
                    None \<Rightarrow> Inl (UnboundLocalError, s')
                  | Some (x_log, u_log) \<Rightarrow>
                      (case torch_cat x_log x' 1 of
                         Inl e \<Rightarrow> Inl (e, s')
                       | Inr x_log' \<Rightarrow>
                           (case torch_cat u_log u' 1 of
                              Inl e \<Rightarrow> Inl (e, s')
                            | Inr u_log' \<Rightarrow>
                                simulate p c data ts (x', u', Some (x_log', u_log'), s'))))))"

text \<open>
  \<^verbatim>\<open>rollout\<close>, lines 107 to 146, seen from inside one call.  The two branches on
  \<^verbatim>\<open>train\<close> run the same loop, the second under \<^verbatim>\<open>torch.no_grad()\<close>.  Within one call
  the gradient mode of the loop is fixed, and \<open>c\<close> is the controller as it behaves in that
  call; \<open>rollout_grad\<close> below keeps the mode, to compare one call with another.  The
  result is the triple
  \<^verbatim>\<open>(x_log, None, u_log)\<close>, paired here with the controller's final state; returning the
  logs when the loop never ran is an \<^verbatim>\<open>UnboundLocalError\<close>, raised after the second
  \<^verbatim>\<open>reset()\<close>.
\<close>

definition rollout ::
  "plant \<Rightarrow> 's controller \<Rightarrow> 's \<Rightarrow> tensor \<Rightarrow> bool \<Rightarrow>
     (error + tensor \<times> tensor option \<times> tensor) \<times> 's" where
  "rollout p c s0 data train =
     (let s1 = reset c s0 in
      case shape data of
        [] \<Rightarrow> (Inl IndexError, s1)
      | b # sh \<Rightarrow>
          (case repeat_b11 b (x_init p) of
             Inl e \<Rightarrow> (Inl e, s1)
           | Inr x \<Rightarrow>
               (case repeat_b11 b (u_init p) of
                  Inl e \<Rightarrow> (Inl e, s1)
                | Inr u \<Rightarrow>
                    (case sh of
                       [] \<Rightarrow> (Inl IndexError, s1)
                     | T # _ \<Rightarrow>
                         (case (if train then simulate p c data [0..<T] (x, u, None, s1)
                                else simulate p c data [0..<T] (x, u, None, s1)) of
                            Inl (e, s) \<Rightarrow> (Inl e, s)
                          | Inr (x', u', lg, s2) \<Rightarrow>
                              (let s3 = reset c s2 in
                               case lg of
                                 None \<Rightarrow> (Inl UnboundLocalError, s3)
                               | Some (x_log, u_log) \<Rightarrow> (Inr (x_log, None, u_log), s3)))))))"

subsection \<open>The gradient mode\<close>


section \<open>Auxiliary notions for the statements\<close>

text \<open>
  A tensor is well formed when it has as many entries as its shape says and one stride
  per dimension.  \<open>batched b k t\<close> says that \<open>t\<close> is a batch of \<open>b\<close> rows of \<open>k\<close> entries in
  the layout (batch, 1, k) of the plant's states, inputs and noise.
\<close>

definition wf_tensor :: "tensor \<Rightarrow> bool" where
  "wf_tensor t = (length (elems t) = prod_list (shape t) \<and> length (strides t) = length (shape t))"

definition wf_opt :: "tensor option \<Rightarrow> bool" where
  "wf_opt x = (case x of None \<Rightarrow> True | Some t \<Rightarrow> wf_tensor t)"

definition batched :: "nat \<Rightarrow> nat \<Rightarrow> tensor \<Rightarrow> bool" where
  "batched b k t = (shape t = [b, 1, k] \<and> length (strides t) = 3 \<and> length (elems t) = b * k)"

text \<open>What \<^verbatim>\<open>__init__\<close> establishes about the buffers that the dynamics read.\<close>

definition plant_ok :: "plant \<Rightarrow> bool" where
  "plant_ok p =
     (state_dim p = 4 \<and> in_dim p = 2
      \<and> shape (xbar p) = [1, 4] \<and> length (elems (xbar p)) = 4
      \<and> shape (x_init p) = [1, 4] \<and> length (elems (x_init p)) = 4
      \<and> shape (A_lin p) = [4, 4] \<and> length (elems (A_lin p)) = 16
      \<and> shape (B_in p) = [4, 2] \<and> length (elems (B_in p)) = 8
      \<and> mask p = contiguous [2, 2] [0, 0, 1, 1]
      \<and> linear_plant p = (fric_b2 p = None))"

text \<open>
  Vectors and matrices for stating the dynamics of one batch entry.  A state row is
  \<open>[p\<^sub>1, p\<^sub>2, v\<^sub>1, v\<^sub>2]\<close>: two positions, then two velocities.  \<open>speed\<close> is the Euclidean
  norm of the velocity; \<open>friction_speeds\<close> is the diagonal the code builds from it; \<open>A_of\<close>
  is the transition matrix of one batch entry (16 entries, row by row), which is
  \<open>A_lin\<close> for a linear plant and \<open>A_lin + h * (- b2 / m) * diag (friction_speeds x)\<close>
  otherwise; \<open>step_row\<close> is the affine map \<open>A(x) (x - xbar) + B u + xbar\<close>.
\<close>

fun speed :: "real list \<Rightarrow> real" where
  "speed [p1, p2, v1, v2] = sqrt (v1 * v1 + v2 * v2)"
| "speed _ = 0"

definition friction_speeds :: "real list \<Rightarrow> real list" where
  "friction_speeds r = [0, 0, speed r, speed r]"

definition A_of :: "plant \<Rightarrow> real list \<Rightarrow> real list" where
  "A_of p r =
     (case fric_b2 p of
        None \<Rightarrow> elems (A_lin p)
      | Some b2 \<Rightarrow>
          map (\<lambda>(x, y). x + y) (zip (elems (A_lin p))
            (map ((*) (step_h p)) (map ((*) (- b2 / mass p)) (diag_rows (friction_speeds r))))))"

definition vadd :: "real list \<Rightarrow> real list \<Rightarrow> real list" where
  "vadd xs ys = map (\<lambda>(x, y). x + y) (zip xs ys)"

definition vsub :: "real list \<Rightarrow> real list \<Rightarrow> real list" where
  "vsub xs ys = map (\<lambda>(x, y). x - y) (zip xs ys)"

definition mat_vec :: "real list list \<Rightarrow> real list \<Rightarrow> real list" where
  "mat_vec M v = map (\<lambda>row. dot row v) M"

definition step_row :: "plant \<Rightarrow> real list \<Rightarrow> real list \<Rightarrow> real list" where
  "step_row p xr ur =
     vadd (vadd (mat_vec (pieces 4 4 (A_of p xr)) (vsub xr (elems (xbar p))))
                (mat_vec (pieces 4 2 (elems (B_in p))) ur))
          (elems (xbar p))"

section \<open>Reference forms and sample inputs\<close>

text \<open>
  The matrix \<open>I + h * A2\<close> as the specification writes it: \<open>A2\<close> has a zero top-left
  block, the identity top-right, \<open>- k / m\<close> times the identity bottom-left and
  \<open>- b / m\<close> times the identity bottom-right.  \<open>block2 i j t\<close> is the 2 by 2 block of a 4
  by 4 tensor at block row \<open>i\<close> and block column \<open>j\<close>.
\<close>

definition eye4 :: "real list" where
  "eye4 = [1, 0, 0, 0,
           0, 1, 0, 0,
           0, 0, 1, 0,
           0, 0, 0, 1]"

definition A2_blocks :: "real \<Rightarrow> real \<Rightarrow> real \<Rightarrow> real list" where
  "A2_blocks kk m bb =
     [0, 0, 1, 0,
      0, 0, 0, 1,
      - kk / m, 0, - bb / m, 0,
      0, - kk / m, 0, - bb / m]"

definition I_plus_h_A2 :: "real \<Rightarrow> real \<Rightarrow> real \<Rightarrow> real \<Rightarrow> tensor" where
  "I_plus_h_A2 hh m kk bb =
     contiguous [4, 4] (map (\<lambda>(i, a). i + hh * a) (zip eye4 (A2_blocks kk m bb)))"

definition block2 :: "nat \<Rightarrow> nat \<Rightarrow> tensor \<Rightarrow> real list" where
  "block2 i j t =
     [elems t ! (8 * i + 2 * j), elems t ! (8 * i + 2 * j + 1),
      elems t ! (8 * i + 2 * j + 4), elems t ! (8 * i + 2 * j + 5)]"

text \<open>An equilibrium given as a vector of four entries, as \<^verbatim>\<open>torch.tensor([1., 2., 0., 0.])\<close>.\<close>

definition xbar_example :: tensor where
  "xbar_example = contiguous [4] [1, 2, 0, 0]"

text \<open>
  The dynamics on a whole batch, entry by entry: \<open>noiseless_batch\<close> applies \<open>step_row\<close>
  to each state row with its input row, \<open>step_batch\<close> adds the noise.
\<close>

definition noiseless_batch :: "plant \<Rightarrow> nat \<Rightarrow> real list \<Rightarrow> real list \<Rightarrow> real list" where
  "noiseless_batch p b xs us =
     concat (map (\<lambda>(xr, ur). step_row p xr ur) (zip (pieces b 4 xs) (pieces b 2 us)))"

definition step_batch :: "plant \<Rightarrow> nat \<Rightarrow> real list \<Rightarrow> real list \<Rightarrow> real list \<Rightarrow> real list" where
  "step_batch p b xs us ws = vadd (noiseless_batch p b xs us) ws"

text \<open>The plant that \<^verbatim>\<open>RobotsSystem(xbar, linear_plant, k=k)\<close> builds from \<open>xbar_example\<close>.\<close>

definition example_plant :: "bool \<Rightarrow> real \<Rightarrow> plant" where
  "example_plant lin k0 =
     \<lparr>linear_plant = lin, xbar = contiguous [1, 4] [1, 2, 0, 0],
      x_init = contiguous [1, 4] [1, 2, 0, 0], u_init = contiguous [1, 2] [0, 0],
      state_dim = 4, in_dim = 2, step_h = 1 / 20, mass = 1, gain_k = k0, damp_b = 1,
      fric_b2 = (if lin then None else Some (1 / 10)),
      B_in = contiguous [4, 2] [0, 0, 0, 0, 1 / 20, 0, 0, 1 / 20],
      A_lin = contiguous [4, 4]
        [1, 0, 1 / 20, 0,
         0, 1, 0, 1 / 20,
         - k0 / 20, 0, 19 / 20, 0,
         0, - k0 / 20, 0, 19 / 20],
      mask = contiguous [2, 2] [0, 0, 1, 1]\<rparr>"

text \<open>
  The friction speeds as the specification describes them, in two readings.  In
  \<open>axis_speeds\<close> an axis pairs its position with its velocity in the layout of the state
  (\<open>p\<^sub>1\<close> with \<open>v\<^sub>1\<close>, \<open>p\<^sub>2\<close> with \<open>v\<^sub>2\<close>), the position is masked, and the norm goes to the
  position row and the velocity row of that axis.  In \<open>pair_speeds\<close> the state is read as
  two consecutive (position, velocity) pairs, as the view to (batch, 2, 2) cuts it, and
  each pair's norm is duplicated in place.  \<open>A_nonlin_claimed s\<close> is \<open>A_lin + h * C\<close> with
  \<open>C = - (b2 / m) * diag s\<close> for such a reading \<open>s\<close>.
\<close>

fun axis_speeds :: "real list \<Rightarrow> real list" where
  "axis_speeds [p1, p2, v1, v2] =
     [sqrt (0 * 0 + v1 * v1), sqrt (0 * 0 + v2 * v2), sqrt (0 * 0 + v1 * v1), sqrt (0 * 0 + v2 * v2)]"
| "axis_speeds _ = []"

fun pair_speeds :: "real list \<Rightarrow> real list" where
  "pair_speeds [p1, v1, p2, v2] =
     [sqrt (0 * 0 + v1 * v1), sqrt (0 * 0 + v1 * v1), sqrt (0 * 0 + v2 * v2), sqrt (0 * 0 + v2 * v2)]"
| "pair_speeds _ = []"

definition A_nonlin_claimed :: "(real list \<Rightarrow> real list) \<Rightarrow> plant \<Rightarrow> real \<Rightarrow> tensor \<Rightarrow> tensor" where
  "A_nonlin_claimed s p b2 x =
     contiguous [length (elems x) div 4, 4, 4]
       (concat (map (\<lambda>r. vadd (elems (A_lin p))
                  (map ((*) (step_h p)) (map ((*) (- (b2 / mass p))) (diag_rows (s r)))))
          (pieces (length (elems x) div 4) 4 (elems x))))"

text \<open>
  The trajectory that the loop of \<^verbatim>\<open>rollout\<close> follows, without the logs: \<open>run_steps\<close>
  gives \<open>x\<close>, \<open>u\<close> and the controller's state after \<open>n\<close> iterations, each of which slices
  the noise, advances the plant with \<^verbatim>\<open>forward\<close> and asks the controller about the new
  state.  \<open>start\<close> is the state before the first iteration: \<^verbatim>\<open>x_init\<close> and \<^verbatim>\<open>u_init\<close>
  repeated along the batch, and the controller after its first \<^verbatim>\<open>reset()\<close>.
\<close>

primrec run_steps ::
  "plant \<Rightarrow> 's controller \<Rightarrow> tensor \<Rightarrow> tensor \<times> tensor \<times> 's \<Rightarrow> nat \<Rightarrow> error + tensor \<times> tensor \<times> 's" where
  "run_steps p c data st 0 = Inr st"
| "run_steps p c data st (Suc n) =
     bind_err (run_steps p c data st n) (\<lambda>(x, u, s).
     bind_err (bind_err (slice_time data n) (forward p n x u)) (\<lambda>x'.
     case call c n x' s of (u', s') \<Rightarrow> Inr (x', u', s')))"

definition start :: "plant \<Rightarrow> 's controller \<Rightarrow> nat \<Rightarrow> 's \<Rightarrow> tensor \<times> tensor \<times> 's" where
  "start p c b s0 =
     (contiguous [b, 1, 4] (concat (replicate b (elems (x_init p)))),
      contiguous [b, 1, 2] (concat (replicate b (elems (u_init p)))),
      reset c s0)"

text \<open>
  The contract of a controller on batches of size \<open>b\<close>: asked about a batch of states,
  it answers with a batch of inputs.
\<close>

definition ctrl_ok :: "'s controller \<Rightarrow> nat \<Rightarrow> bool" where
  "ctrl_ok c b = (\<forall>t x s. batched b 4 x \<longrightarrow> batched b 2 (fst (call c t x s)))"

text \<open>
  The entries of time step \<open>j\<close> in the row-major entries of a tensor of shape (b, T, k),
  and the entries of the concatenation along time of a (b, t, k) with a (b, 1, k) tensor.
\<close>

definition time_slice :: "nat \<Rightarrow> nat \<Rightarrow> nat \<Rightarrow> nat \<Rightarrow> real list \<Rightarrow> real list" where
  "time_slice b T k j xs = concat (map (\<lambda>blk. take k (drop (j * k) blk)) (pieces b (T * k) xs))"

definition cat_time :: "nat \<Rightarrow> nat \<Rightarrow> nat \<Rightarrow> real list \<Rightarrow> real list \<Rightarrow> real list" where
  "cat_time b t k xs ys =
     concat (map (\<lambda>(x, y). x @ y) (zip (pieces b (t * k) xs) (pieces b k ys)))"

text \<open>
  A noise tensor of shape (b, T, 4), and the invariant of the logs after \<open>t\<close> iterations:
  unbound before the first, then of shapes (b, t, 4) and (b, t, 2), holding at time step
  \<open>j\<close> the state and the input that \<open>run_steps\<close> reaches after \<open>j + 1\<close> iterations.
\<close>

definition data_ok :: "nat \<Rightarrow> nat \<Rightarrow> tensor \<Rightarrow> bool" where
  "data_ok b T data =
     (shape data = [b, T, 4] \<and> length (strides data) = 3 \<and> length (elems data) = b * (T * 4))"

definition logged ::
  "plant \<Rightarrow> 's controller \<Rightarrow> tensor \<Rightarrow> tensor \<times> tensor \<times> 's \<Rightarrow> nat \<Rightarrow> nat \<Rightarrow>
     (tensor \<times> tensor) option \<Rightarrow> bool" where
  "logged p c data st0 b t lg =
     (case lg of
        None \<Rightarrow> t = 0
      | Some (xl, ul) \<Rightarrow>
          0 < t \<and> shape xl = [b, t, 4] \<and> length (elems xl) = b * (t * 4)
          \<and> shape ul = [b, t, 2] \<and> length (elems ul) = b * (t * 2)
          \<and> (\<forall>j<t. \<exists>xj uj sj. run_steps p c data st0 (Suc j) = Inr (xj, uj, sj)
                \<and> time_slice b t 4 j (elems xl) = elems xj
                \<and> time_slice b t 2 j (elems ul) = elems uj))"

text \<open>
  Two controllers whose state counts the calls since the last \<^verbatim>\<open>reset()\<close>: one always
  answers zero, the other answers each state with the negated velocity.
\<close>

definition zero_controller :: "nat controller" where
  "zero_controller =
     \<lparr>reset = (\<lambda>s. 0),
      call = (\<lambda>t x s. (contiguous [hd (shape x), 1, 2] (replicate (hd (shape x) * 2) 0), Suc s))\<rparr>"

definition damping_controller :: "nat controller" where
  "damping_controller =
     \<lparr>reset = (\<lambda>s. 0),
      call = (\<lambda>t x s.
        (contiguous [hd (shape x), 1, 2]
           (concat (map (\<lambda>r. [- (r ! 2), - (r ! 3)]) (pieces (hd (shape x)) 4 (elems x)))),
         Suc s))\<rparr>"



text \<open>Noise for two trajectories of two steps.\<close>

definition noise_example :: tensor where
  "noise_example = contiguous [2, 2, 4]
     [0, 0, 0, 0,  1, 0, 0, 0,
      0, 0, 1, 0,  0, 0, 0, 0]"

text \<open>
  A controller is pointwise on batches of two when, from related states, its answer to a
  batch of two states is the answer to the first state followed by the answer to the
  second, and the states after the call are related again.  The relation \<open>R s s\<^sub>0 s\<^sub>1\<close> ties
  the controller's state in the run on the whole batch to its states in the runs on the
  two entries.  \<open>batch_entry i T data\<close> is \<^verbatim>\<open>data[i:i+1]\<close> for noise of shape (2, T, 4).
\<close>

definition ctrl_pointwise :: "'s controller \<Rightarrow> ('s \<Rightarrow> 's \<Rightarrow> 's \<Rightarrow> bool) \<Rightarrow> bool" where
  "ctrl_pointwise c R =
     (\<forall>t x0 x1 s s0 s1. R s s0 s1 \<and> length x0 = 4 \<and> length x1 = 4 \<longrightarrow>
        elems (fst (call c t (contiguous [2, 1, 4] (x0 @ x1)) s))
          = elems (fst (call c t (contiguous [1, 1, 4] x0) s0))
            @ elems (fst (call c t (contiguous [1, 1, 4] x1) s1))
        \<and> R (snd (call c t (contiguous [2, 1, 4] (x0 @ x1)) s))
             (snd (call c t (contiguous [1, 1, 4] x0) s0))
             (snd (call c t (contiguous [1, 1, 4] x1) s1)))"

definition batch_entry :: "nat \<Rightarrow> nat \<Rightarrow> tensor \<Rightarrow> tensor" where
  "batch_entry i T data = contiguous [1, T, 4] (take (T * 4) (drop (i * (T * 4)) (elems data)))"

text \<open>The damping controller is pointwise: its states, call counters, stay equal.\<close>

definition same_count :: "nat \<Rightarrow> nat \<Rightarrow> nat \<Rightarrow> bool" where
  "same_count s s0 s1 = (s = s0 \<and> s = s1)"


text \<open>
  The plants that \<^verbatim>\<open>RobotsSystem(xbar, True, u_init=u, k=3.0)\<close> builds from
  \<open>xbar_example\<close> when \<open>u\<close> is \<^verbatim>\<open>torch.zeros(3, 2)\<close> and when it is
  \<^verbatim>\<open>torch.zeros(1, 2, 1, 1)\<close>: line 27 leaves \<^verbatim>\<open>u_init\<close> as it was given.
\<close>

definition wide_plant :: plant where
  "wide_plant = (example_plant True 3)\<lparr>u_init := contiguous [3, 2] [0, 0, 0, 0, 0, 0]\<rparr>"

definition deep_plant :: plant where
  "deep_plant = (example_plant True 3)\<lparr>u_init := contiguous [1, 2, 1, 1] [0, 0]\<rparr>"

text \<open>A controller that answers zero and whose state counts the calls of \<^verbatim>\<open>reset()\<close>.\<close>

definition reset_counter :: "nat controller" where
  "reset_counter =
     \<lparr>reset = Suc,
      call = (\<lambda>t x s. (contiguous [hd (shape x), 1, 2] (replicate (hd (shape x) * 2) 0), s))\<rparr>"

text \<open>Noise for two trajectories of one step.\<close>

definition noise_pair :: tensor where
  "noise_pair = contiguous [2, 1, 4] [0, 0, 0, 0,  0, 0, 1, 0]"

section \<open>Lists cut into rows\<close>

lemma upt_0_2 [simp]: "[0..<2] = [0, 1]" by (simp add: upt_rec)

lemma upt_0_4 [simp]: "[0..<4] = [0, 1, 2, 3]" by (simp add: upt_rec)

lemma replicate_2: "replicate 2 x = [x, x]"
  by (simp add: numeral_eq_Suc)

lemma pieces_numeral [simp]:
  "pieces (numeral n) k xs = take k xs # pieces (pred_numeral n) k (drop k xs)"
  by (simp add: numeral_eq_Suc)

lemma length_pieces [simp]: "length (pieces m k xs) = m"
  by (induction m arbitrary: xs) auto

lemma pieces_row_length:
  "r \<in> set (pieces m k xs) \<Longrightarrow> m * k \<le> length xs \<Longrightarrow> length r = k"
  by (induction m arbitrary: xs) auto

lemma concat_pieces: "length xs = m * k \<Longrightarrow> concat (pieces m k xs) = xs"
  by (induction m arbitrary: xs) auto

lemma pieces_concat:
  "list_all (\<lambda>r. length r = k) rs \<Longrightarrow> pieces (length rs) k (concat rs) = rs"
  by (induction rs) auto

lemma view_same_3:
  assumes "shape t = [b, 1, k]" "strides t = [s0, s1, s2]" "0 < k"
  shows "\<exists>st. view_m1 [1, k] t = Inr \<lparr>shape = [b, 1, k], strides = st, elems = elems t\<rparr>"
  using assms
proof -
  have m: "Suc 0 < b \<Longrightarrow> Suc 0 < k \<Longrightarrow> Suc 0 < k * b"
    by (metis One_nat_def less_1_mult)
  show ?thesis
    using assms m
    by (auto simp: view_m1_def compute_stride_def Let_def split: option.splits)
qed

lemma map2_concat_rows:
  "length rs = length ss \<Longrightarrow> list_all (\<lambda>(r, s). length r = length s) (zip rs ss) \<Longrightarrow>
   map (\<lambda>(x, y). f x y) (zip (concat rs) (concat ss))
     = concat (map (\<lambda>(r, s). map (\<lambda>(x, y). f x y) (zip r s)) (zip rs ss))"
  by (induction rs ss rule: list_induct2) auto

lemma zip_pieces_rows:
  "length xs = m * k \<Longrightarrow> length ys = m * k \<Longrightarrow>
   concat (map (\<lambda>(r, s). map (\<lambda>(x, y). f x y) (zip r s)) (zip (pieces m k xs) (pieces m k ys)))
     = map (\<lambda>(x, y). f x y) (zip xs ys)"
proof (induction m arbitrary: xs ys)
  case 0
  then show ?case by simp
next
  case (Suc m)
  have "map (\<lambda>(x, y). f x y) (zip xs ys)
      = map (\<lambda>(x, y). f x y) (zip (take k xs @ drop k xs) (take k ys @ drop k ys))"
    by simp
  also have "\<dots> = map (\<lambda>(x, y). f x y) (zip (take k xs) (take k ys))
      @ map (\<lambda>(x, y). f x y) (zip (drop k xs) (drop k ys))"
    using Suc.prems by (subst zip_append) auto
  finally show ?case using Suc by simp
qed

lemma broadcast_map_same:
  "length xs = prod_list sh \<Longrightarrow> length ys = prod_list sh \<Longrightarrow>
   broadcast_map f sh sh xs ys = map (\<lambda>(x, y). f x y) (zip xs ys)"
proof (induction sh arbitrary: xs ys)
  case Nil
  then show ?case by simp
next
  case (Cons m sh)
  let ?k = "prod_list sh"
  have rows: "\<And>r. r \<in> set (pieces m ?k xs) \<Longrightarrow> length r = ?k"
             "\<And>r. r \<in> set (pieces m ?k ys) \<Longrightarrow> length r = ?k"
    using Cons.prems by (auto dest: pieces_row_length)
  show ?case
  proof (cases "m = 1")
    case True
    then show ?thesis using Cons by simp
  next
    case False
    have "concat (map (\<lambda>(x, y). broadcast_map f sh sh x y) (zip (pieces m ?k xs) (pieces m ?k ys)))
        = concat (map (\<lambda>(r, s). map (\<lambda>(x, y). f x y) (zip r s)) (zip (pieces m ?k xs) (pieces m ?k ys)))"
    proof (rule arg_cong [where f = concat], rule map_cong [OF refl], clarify)
      fix a b assume "(a, b) \<in> set (zip (pieces m ?k xs) (pieces m ?k ys))"
      then have "length a = ?k" "length b = ?k"
        using rows by (auto dest: set_zip_leftD set_zip_rightD)
      then show "broadcast_map f sh sh a b = map (\<lambda>(x, y). f x y) (zip a b)"
        by (rule Cons.IH)
    qed
    then show ?thesis
      using False Cons.prems by (simp add: zip_pieces_rows)
  qed
qed

lemma broadcast_map_rows:
  "length xs = b * prod_list sh \<Longrightarrow> length ys = prod_list sh \<Longrightarrow>
   broadcast_map f (b # sh) (1 # sh) xs ys
     = concat (map (\<lambda>r. map (\<lambda>(x, y). f x y) (zip r ys)) (pieces b (prod_list sh) xs))"
proof -
  assume len: "length xs = b * prod_list sh" "length ys = prod_list sh"
  have "\<And>r. r \<in> set (pieces b (prod_list sh) xs) \<Longrightarrow>
      broadcast_map f sh sh r ys = map (\<lambda>(x, y). f x y) (zip r ys)"
    using len by (intro broadcast_map_same) (auto dest: pieces_row_length)
  then show ?thesis using len by (auto intro!: arg_cong [where f = concat])
qed

lemma broadcast_map_rows_left:
  "length xs =  prod_list sh \<Longrightarrow> length ys = b * prod_list sh \<Longrightarrow>
   broadcast_map f (1 # sh) (b # sh) xs ys
     = concat (map (\<lambda>r. map (\<lambda>(x, y). f x y) (zip xs r)) (pieces b (prod_list sh) ys))"
proof -
  assume len: "length xs = prod_list sh" "length ys = b * prod_list sh"
  have "\<And>r. r \<in> set (pieces b (prod_list sh) ys) \<Longrightarrow>
      broadcast_map f sh sh xs r = map (\<lambda>(x, y). f x y) (zip xs r)"
    using len by (intro broadcast_map_same) (auto dest: pieces_row_length)
  then show ?thesis using len
    by (cases "b = 1") (auto intro!: arg_cong [where f = concat])
qed

section \<open>Tensor operations, row by row\<close>

lemma broadcast_shapes_same: "broadcast_shapes sh sh = Some sh"
  by (induction sh) auto

lemma length_concat_rows:
  "list_all (\<lambda>r. length (g r) = k) rows \<Longrightarrow> length (concat (map g rows)) = length rows * k"
  by (induction rows) auto

lemma pieces_concat_map:
  "list_all (\<lambda>r. length (g r) = k) rows \<Longrightarrow> length rows = b \<Longrightarrow>
   pieces b k (concat (map g rows)) = map g rows"
  using pieces_concat [of k "map g rows"] by (simp add: list_all_iff)

lemma pad_shape_self [simp]: "pad_shape (length s) s = s"
  by (simp add: pad_shape_def)

lemma pad_shape_Cons_self [simp]: "pad_shape (Suc (length s)) (b # s) = b # s"
  by (simp add: pad_shape_def)

lemma pad_shape_Suc [simp]: "pad_shape (Suc (length s)) s = 1 # s"
  by (simp add: pad_shape_def)

lemma op_rows_bcast:
  assumes "shape a = b # sh" "shape c = sh" "length (elems c) = prod_list sh"
    and "elems a = concat (map g rows)" "length rows = b"
    and "list_all (\<lambda>r. length (g r) = prod_list sh) rows"
  shows "broadcast_op f a c =
    Inr (contiguous (b # sh) (concat (map (\<lambda>r. map (\<lambda>(x, y). f x y) (zip (g r) (elems c))) rows)))"
proof -
  have len: "length (elems a) = b * prod_list sh"
    using assms by (simp add: length_concat_rows)
  have sh: "broadcast_shapes (b # sh) (1 # sh) = Some (b # sh)"
    by (simp add: broadcast_shapes_same)
  have "broadcast_map f (b # sh) (1 # sh) (elems a) (elems c)
      = concat (map (\<lambda>r. map (\<lambda>(x, y). f x y) (zip r (elems c))) (pieces b (prod_list sh) (elems a)))"
    using len assms(3) by (rule broadcast_map_rows)
  also have "pieces b (prod_list sh) (elems a) = map g rows"
    using assms by (simp add: pieces_concat_map)
  finally show ?thesis
    using assms(1,2) sh
    by (simp add: broadcast_op_def Let_def comp_def del: broadcast_map.simps broadcast_shapes.simps)
qed

lemma op_rows_bcast_left:
  assumes "shape a = sh" "shape c = b # sh" "length (elems a) = prod_list sh"
    and "elems c = concat (map g rows)" "length rows = b"
    and "list_all (\<lambda>r. length (g r) = prod_list sh) rows"
  shows "broadcast_op f a c =
    Inr (contiguous (b # sh) (concat (map (\<lambda>r. map (\<lambda>(x, y). f x y) (zip (elems a) (g r))) rows)))"
proof -
  have len: "length (elems c) = b * prod_list sh"
    using assms by (simp add: length_concat_rows)
  have sh: "broadcast_shapes (1 # sh) (b # sh) = Some (b # sh)"
    by (auto simp add: broadcast_shapes_same)
  have "broadcast_map f (1 # sh) (b # sh) (elems a) (elems c)
      = concat (map (\<lambda>r. map (\<lambda>(x, y). f x y) (zip (elems a) r)) (pieces b (prod_list sh) (elems c)))"
    using assms(3) len by (rule broadcast_map_rows_left)
  also have "pieces b (prod_list sh) (elems c) = map g rows"
    using assms by (simp add: pieces_concat_map)
  finally show ?thesis
    using assms(1,2) sh
    by (simp add: broadcast_op_def Let_def comp_def del: broadcast_map.simps broadcast_shapes.simps)
qed

lemma map2_concat_map:
  "list_all (\<lambda>r. length (g1 r) = length (g2 r)) rows \<Longrightarrow>
   map (\<lambda>(x, y). f x y) (zip (concat (map g1 rows)) (concat (map g2 rows)))
     = concat (map (\<lambda>r. map (\<lambda>(x, y). f x y) (zip (g1 r) (g2 r))) rows)"
  by (induction rows) auto

lemma op_rows_same:
  assumes "shape a = sh" "shape c = sh"
    and "elems a = concat (map g1 rows)" "elems c = concat (map g2 rows)"
    and "length rows * k = prod_list sh"
    and "list_all (\<lambda>r. length (g1 r) = k) rows" "list_all (\<lambda>r. length (g2 r) = k) rows"
  shows "broadcast_op f a c =
    Inr (contiguous sh (concat (map (\<lambda>r. map (\<lambda>(x, y). f x y) (zip (g1 r) (g2 r))) rows)))"
proof -
  have len: "length (elems a) = prod_list sh" "length (elems c) = prod_list sh"
    using assms by (simp_all add: length_concat_rows)
  have eq: "list_all (\<lambda>r. length (g1 r) = length (g2 r)) rows"
    using assms(6,7) by (simp add: list_all_iff)
  have "broadcast_map f sh sh (elems a) (elems c)
      = map (\<lambda>(x, y). f x y) (zip (elems a) (elems c))"
    using len by (rule broadcast_map_same)
  then show ?thesis
    using assms(1-4) eq
    by (simp add: broadcast_op_def Let_def broadcast_shapes_same map2_concat_map)
qed

lemma F_linear_rows:
  assumes "shape a = [b, 1, n]" "shape W = [out, n]"
    and "elems a = concat (map g rows)" "length rows = b"
    and "list_all (\<lambda>r. length (g r) = n) rows"
  shows "F_linear a W =
    Inr (contiguous [b, 1, out] (concat (map (\<lambda>r. map (dot (g r)) (pieces out n (elems W))) rows)))"
  using assms by (simp add: F_linear_def pieces_concat_map comp_def)

section \<open>The buffers of a constructed plant\<close>

lemma compute_A_lin_eq:
  "compute_A_lin hh m kk bb = Inr (contiguous [4, 4]
     [1 + hh * 0, 0 + hh * 0, 0 + hh * 1, 0 + hh * 0,
      0 + hh * 0, 1 + hh * 0, 0 + hh * 0, 0 + hh * 1,
      0 + hh * (- kk / m), 0 + hh * 0, 1 + hh * (- bb / m), 0 + hh * 0,
      0 + hh * 0, 0 + hh * (- kk / m), 0 + hh * 0, 1 + hh * (- bb / m)])"
  by (simp add: compute_A_lin_def torch_cat_def torch_zeros_def torch_eye_def torch_diag_def
      diag_rows_def contiguous_def smul_def tensor_add_def broadcast_op_def pad_shape_def Let_def
      numeral_eq_Suc)

lemma len3: "length xs = 3 \<Longrightarrow> \<exists>a b c. xs = [a, b, c]"
  by (auto simp: numeral_eq_Suc length_Suc_conv)

lemma view_batched:
  assumes "batched b k t" "0 < k"
  shows "\<exists>t'. view_m1 [1, k] t = Inr t' \<and> batched b k t' \<and> elems t' = elems t"
proof -
  obtain s0 s1 s2 where st: "strides t = [s0, s1, s2]"
    using assms(1) len3 unfolding batched_def by blast
  have m: "Suc 0 < b \<Longrightarrow> Suc 0 < k \<Longrightarrow> Suc 0 < k * b"
    by (metis One_nat_def less_1_mult)
  show ?thesis
  proof (cases "b = 0")
    case True
    then show ?thesis
      using assms st by (auto simp: batched_def view_m1_def compute_stride_def Let_def)
  next
    case False
    then have "b = 1 \<or> Suc 0 < b" by auto
    then show ?thesis
      using assms m st
      by (auto simp: batched_def view_m1_def compute_stride_def Let_def split: option.splits)
  qed
qed

lemma init_fields:
  assumes "init xbar0 lin xi0 ui0 k0 = Inr p" "wf_tensor xbar0" "wf_opt xi0"
  shows "shape (xbar p) = [1, 4]" "length (elems (xbar p)) = 4"
    "shape (x_init p) = [1, 4]" "length (elems (x_init p)) = 4"
    "linear_plant p = lin" "state_dim p = 4" "in_dim p = 2"
    "step_h p = 1 / 20" "mass p = 1" "fric_b2 p = (if lin then None else Some (1 / 10))"
    "A_lin p = contiguous [4, 4]
       [1, 0, 1 / 20, 0,
        0, 1, 0, 1 / 20,
        - k0 / 20, 0, 19 / 20, 0,
        0, - k0 / 20, 0, 19 / 20]"
    "B_in p = contiguous [4, 2] [0, 0, 0, 0, 1 / 20, 0, 0, 1 / 20]"
    "mask p = contiguous [2, 2] [0, 0, 1, 1]"
    "u_init p = (case ui0 of None \<Rightarrow> torch_zeros [1, 2] | Some t \<Rightarrow> t)"
    "xbar p = contiguous [1, 4] (elems xbar0)"
    "x_init p = (case xi0 of None \<Rightarrow> xbar p | Some t \<Rightarrow> contiguous [1, 4] (elems t))"
  using assms
  by (auto simp: init_def Let_def compute_A_lin_eq reshape_1_m1_def contiguous_def compute_B_def
      smul_def wf_tensor_def wf_opt_def torch_zeros_def
      split: if_splits option.splits)

section \<open>One step of the dynamics, row by row\<close>

lemma concat_fst_rows:
  "length xs = b * k \<Longrightarrow> concat (map fst (zip (pieces b k xs) (pieces b j ys))) = xs"
  by (simp add: concat_pieces)

lemma concat_snd_rows:
  "length ys = b * j \<Longrightarrow> concat (map snd (zip (pieces b k xs) (pieces b j ys))) = ys"
  by (simp add: concat_pieces)

lemma rows_fst_len:
  "length xs = b * k \<Longrightarrow> list_all (\<lambda>r. length (fst r) = k) (zip (pieces b k xs) (pieces b j ys))"
  by (auto simp: list_all_iff dest!: set_zip_leftD dest: pieces_row_length)

lemma rows_snd_len:
  "length ys = b * j \<Longrightarrow> list_all (\<lambda>r. length (snd r) = j) (zip (pieces b k xs) (pieces b j ys))"
  by (auto simp: list_all_iff dest!: set_zip_rightD dest: pieces_row_length)

lemma shape_contiguous [simp]: "shape (contiguous sh xs) = sh"
  and elems_contiguous [simp]: "elems (contiguous sh xs) = xs"
  and strides_contiguous [simp]: "strides (contiguous sh xs) = contiguous_strides sh"
  by (simp_all add: contiguous_def)

lemma noiseless_forward_linear_rows:
  assumes p: "linear_plant p" "state_dim p = 4" "in_dim p = 2"
      "shape (xbar p) = [1, 4]" "length (elems (xbar p)) = 4"
      "shape (A_lin p) = [4, 4]" "shape (B_in p) = [4, 2]"
    and x: "batched b 4 x" and u: "batched b 2 u"
  shows "noiseless_forward p t x u = Inr (contiguous [b, 1, 4]
    (concat (map (\<lambda>r.
       map (\<lambda>(x, y). x + y) (zip
         (map (\<lambda>(x, y). x + y) (zip
            (map (dot (map (\<lambda>(x, y). x - y) (zip (fst r) (elems (xbar p))))) (pieces 4 4 (elems (A_lin p))))
            (map (dot (snd r)) (pieces 4 2 (elems (B_in p))))))
         (elems (xbar p))))
      (zip (pieces b 4 (elems x)) (pieces b 2 (elems u))))))"
proof -
  let ?rows = "zip (pieces b 4 (elems x)) (pieces b 2 (elems u))"
  let ?xb = "elems (xbar p)"
  obtain x1 where x1: "view_m1 [1, 4] x = Inr x1" "batched b 4 x1" "elems x1 = elems x"
    using view_batched [OF x] by auto
  obtain u1 where u1: "view_m1 [1, 2] u = Inr u1" "batched b 2 u1" "elems u1 = elems u"
    using view_batched [OF u] by auto
  have n: "length ?rows = b" by simp
  have lx: "length (elems x) = b * 4" and lu: "length (elems u) = b * 2"
    using x u by (simp_all add: batched_def)
  have ex: "elems x1 = concat (map fst ?rows)" and eu: "elems u1 = concat (map snd ?rows)"
    using x1 u1 lx lu by (simp_all add: concat_pieces)
  have fl: "list_all (\<lambda>r. length (fst r) = 4) ?rows" and sl: "list_all (\<lambda>r. length (snd r) = 2) ?rows"
    using lx lu by (simp_all add: rows_fst_len rows_snd_len)
  have shx: "shape x1 = b # [1, 4]" and shu: "shape u1 = [b, 1, 2]"
    using x1 u1 by (simp_all add: batched_def)
  define g1 where "g1 = (\<lambda>r :: real list \<times> real list. map (\<lambda>(x, y). x - y) (zip (fst r) ?xb))"
  have d: "tensor_sub x1 (xbar p) = Inr (contiguous [b, 1, 4] (concat (map g1 ?rows)))"
    unfolding tensor_sub_def g1_def
    using op_rows_bcast [OF shx p(4) _ ex n, of "(-)"] fl p(5) by simp
  have g1l: "list_all (\<lambda>r. length (g1 r) = 4) ?rows"
    using fl p(5) by (simp add: g1_def list_all_iff)
  define g2 where "g2 = (\<lambda>r. map (dot (g1 r)) (pieces 4 4 (elems (A_lin p))))"
  have a: "F_linear (contiguous [b, 1, 4] (concat (map g1 ?rows))) (A_lin p)
      = Inr (contiguous [b, 1, 4] (concat (map g2 ?rows)))"
    unfolding g2_def by (rule F_linear_rows [OF _ p(6) _ n g1l]) simp_all
  have g2l: "list_all (\<lambda>r. length (g2 r) = 4) ?rows"
    by (simp add: g2_def list_all_iff)
  define g3 where "g3 = (\<lambda>r :: real list \<times> real list. map (dot (snd r)) (pieces 4 2 (elems (B_in p))))"
  have bu: "F_linear u1 (B_in p) = Inr (contiguous [b, 1, 4] (concat (map g3 ?rows)))"
    unfolding g3_def by (rule F_linear_rows [OF shu p(7) eu n sl])
  have g3l: "list_all (\<lambda>r. length (g3 r) = 4) ?rows"
    by (simp add: g3_def list_all_iff)
  define g4 where "g4 = (\<lambda>r. map (\<lambda>(x, y). x + y) (zip (g2 r) (g3 r)))"
  have s: "tensor_add (contiguous [b, 1, 4] (concat (map g2 ?rows)))
        (contiguous [b, 1, 4] (concat (map g3 ?rows)))
      = Inr (contiguous [b, 1, 4] (concat (map g4 ?rows)))"
    unfolding tensor_add_def g4_def
    by (rule op_rows_same [where k = 4, OF _ _ _ _ _ g2l g3l]) simp_all
  have g4l: "list_all (\<lambda>r. length (g4 r) = 4) ?rows"
    using g2l g3l by (simp add: g4_def list_all_iff)
  have f: "tensor_add (contiguous [b, 1, 4] (concat (map g4 ?rows))) (xbar p)
      = Inr (contiguous [b, 1, 4] (concat (map (\<lambda>r. map (\<lambda>(x, y). x + y) (zip (g4 r) ?xb)) ?rows)))"
    unfolding tensor_add_def
    using op_rows_bcast [where sh = "[1, 4]" and f = "(+)" and g = g4, OF _ p(4) _ _ n] g4l p(5)
    by simp
  show ?thesis
    unfolding noiseless_forward_def
    by (simp only: p(1,2,3) x1(1) u1(1) bind_err.simps d a bu s f if_True)
       (simp only: g4_def g3_def g2_def g1_def)
qed

lemma view_22:
  assumes "batched b 4 t"
  shows "\<exists>t'. view_m1 [2, 2] t = Inr t' \<and> shape t' = [b, 2, 2] \<and> elems t' = elems t"
proof -
  obtain s0 s1 s2 where st: "strides t = [s0, s1, s2]"
    using assms(1) len3 unfolding batched_def by blast
  show ?thesis
  proof (cases "b = 0")
    case True
    then show ?thesis
      using assms st by (auto simp: batched_def view_m1_def compute_stride_def Let_def)
  next
    case False
    then have "b = 1 \<or> Suc 0 < b" by auto
    then show ?thesis
      using assms st
      by (auto simp: batched_def view_m1_def compute_stride_def Let_def split: option.splits)
  qed
qed

lemma pieces_append:
  "length xs = j * k \<Longrightarrow> pieces (j + n) k (xs @ ys) = pieces j k xs @ pieces n k ys"
  by (induction j arbitrary: xs) auto

lemma pieces_rechunk:
  "list_all (\<lambda>r. length (g r) = j * k) rows \<Longrightarrow>
   pieces (length rows * j) k (concat (map g rows)) = concat (map (\<lambda>r. pieces j k (g r)) rows)"
  by (induction rows) (auto simp: pieces_append)

lemma torch_norm_last_rows:
  assumes "shape a = [b, j, k]" "elems a = concat (map g rows)" "length rows = b"
    and "list_all (\<lambda>r. length (g r) = j * k) rows"
  shows "torch_norm_last a = contiguous [b, j, 1]
    (concat (map (\<lambda>r. map (\<lambda>row. sqrt (sum_list (map (\<lambda>v. v * v) row))) (pieces j k (g r))) rows))"
  using assms pieces_rechunk [of g j k rows]
  by (simp add: torch_norm_last_def map_concat comp_def)

lemma torch_kron_rows:
  assumes "shape a = [b, j, 1]" "elems a = concat (map g rows)" "length rows = b"
    and "list_all (\<lambda>r. length (g r) = j) rows"
  shows "torch_kron a (torch_ones [2, 1]) = contiguous [b, j * 2, 1]
    (concat (map (\<lambda>r. kron_map [j, 1] [2, 1] (g r) [1, 1]) rows))"
  using assms
  by (simp add: torch_kron_def torch_ones_def pad_shape_def Let_def pieces_concat_map comp_def
      numeral_eq_Suc)

lemma diag_embed_rows:
  assumes "shape a = [b, k]" "elems a = concat (map g rows)" "length rows = b"
    and "list_all (\<lambda>r. length (g r) = k) rows"
  shows "diag_embed a = Inr (contiguous [b, k, k] (concat (map (\<lambda>r. diag_rows (g r)) rows)))"
  using assms by (simp add: diag_embed_def pieces_concat_map comp_def)

lemma transpose12_rows:
  assumes "shape a = [b, n, m]" "length (strides a) = 3" "elems a = concat (map g rows)"
    and "length rows = b" "list_all (\<lambda>r. length (g r) = n * m) rows"
  shows "\<exists>t'. transpose12 a = Inr t' \<and> shape t' = [b, m, n] \<and> elems t' =
    concat (map (\<lambda>r. concat (map (\<lambda>j. concat (map (\<lambda>row. take 1 (drop j row)) (pieces n m (g r))))
       [0..<m])) rows)"
proof -
  obtain s0 s1 s2 where st: "strides a = [s0, s1, s2]"
    using assms(2) len3 by blast
  show ?thesis
    using assms st by (simp add: transpose12_def pieces_concat_map comp_def)
qed

lemma bmm_rows:
  assumes "shape a = [b, n, m]" "shape c = [b, m, q]"
    and "elems a = concat (map g1 rows)" "elems c = concat (map g2 rows)" "length rows = b"
    and "list_all (\<lambda>r. length (g1 r) = n * m) rows" "list_all (\<lambda>r. length (g2 r) = m * q) rows"
  shows "bmm a c = Inr (contiguous [b, n, q] (concat (map (\<lambda>r. matmul n m q (g1 r) (g2 r)) rows)))"
proof -
  have z: "zip (map g1 rows) (map g2 rows) = map (\<lambda>r. (g1 r, g2 r)) rows"
    by (induction rows) auto
  show ?thesis
    using assms by (simp add: bmm_def pieces_concat_map z comp_def)
qed

lemma len4: "length xs = 4 \<Longrightarrow> \<exists>a b c d. xs = [a, b, c, d]"
  by (auto simp: numeral_eq_Suc length_Suc_conv)

lemma len2: "length xs = 2 \<Longrightarrow> \<exists>a b. xs = [a, b]"
  by (auto simp: numeral_eq_Suc length_Suc_conv)

lemma A3_norm_rows:
  assumes "mask p = contiguous [2, 2] [0, 0, 1, 1]" and x: "batched b 4 x"
    and "elems x = concat (map g rows)" "length rows = b"
    and gl: "list_all (\<lambda>r. length (g r) = 4) rows"
  shows "A3_norm p x = Inr (contiguous [b, 2, 1] (concat (map (\<lambda>r. [0, speed (g r)]) rows)))"
proof -
  obtain xv where xv: "view_m1 [2, 2] x = Inr xv" "shape xv = b # [2, 2]" "elems xv = elems x"
    using view_22 [OF x] by auto
  define g1 where "g1 = (\<lambda>r. map (\<lambda>(x, y). x * y) (zip (g r) [0, 0, 1, 1 :: real]))"
  have m: "tensor_mul xv (mask p) = Inr (contiguous [b, 2, 2] (concat (map g1 rows)))"
    unfolding tensor_mul_def g1_def
    using op_rows_bcast [OF xv(2), of "mask p" g rows "(*)"] assms xv by simp
  have g1l: "list_all (\<lambda>r. length (g1 r) = 2 * 2) rows"
    using gl by (simp add: g1_def list_all_iff)
  have n: "torch_norm_last (contiguous [b, 2, 2] (concat (map g1 rows)))
      = contiguous [b, 2, 1] (concat (map (\<lambda>r. map (\<lambda>row. sqrt (sum_list (map (\<lambda>v. v * v) row)))
           (pieces 2 2 (g1 r))) rows))"
    by (rule torch_norm_last_rows [OF _ _ assms(4) g1l]) simp_all
  have row: "map (\<lambda>row. sqrt (sum_list (map (\<lambda>v. v * v) row))) (pieces 2 2 (g1 r)) = [0, speed (g r)]"
    if "r \<in> set rows" for r
  proof -
    have "length (g r) = 4"
      using gl that by (simp add: list_all_iff)
    then obtain a b c d where "g r = [a, b, c, d]"
      using len4 by blast
    then show ?thesis by (simp add: g1_def)
  qed
  have "map (\<lambda>r. map (\<lambda>row. sqrt (sum_list (map (\<lambda>v. v * v) row))) (pieces 2 2 (g1 r))) rows
      = map (\<lambda>r. [0, speed (g r)]) rows"
    by (rule map_cong [OF refl]) (rule row)
  then show ?thesis
    unfolding A3_norm_def by (simp only: xv(1) m n bind_err.simps)
qed

lemma A3_kron_rows:
  assumes "length rows = b"
  shows "A3_kron (contiguous [b, 2, 1] (concat (map (\<lambda>r. [0, speed (g r)]) rows)))
    = contiguous [b, 4, 1] (concat (map (\<lambda>r. [0, 0, speed (g r), speed (g r)]) rows))"
  unfolding A3_kron_def
  by (subst torch_kron_rows [where rows = rows and j = 2 and g = "\<lambda>r. [0, speed (g r)]"])
     (simp_all add: assms list_all_iff)

lemma len16:
  "length xs = 16 \<Longrightarrow> \<exists>a0 a1 a2 a3 a4 a5 a6 a7 a8 a9 a10 a11 a12 a13 a14 a15.
     xs = [a0, a1, a2, a3, a4, a5, a6, a7, a8, a9, a10, a11, a12, a13, a14, a15]"
  by (auto simp: numeral_eq_Suc length_Suc_conv)

lemma length_diag_rows [simp]: "length (diag_rows r) = length r * length r"
  by (simp add: diag_rows_def length_concat comp_def sum_list_triv)

lemma A_nonlin_rows:
  assumes p: "\<not> linear_plant p" "fric_b2 p = Some b2" "mask p = contiguous [2, 2] [0, 0, 1, 1]"
      "shape (A_lin p) = [4, 4]" "length (elems (A_lin p)) = 16"
    and x: "batched b 4 x"
    and "elems x = concat (map g rows)" "length rows = b"
    and gl: "list_all (\<lambda>r. length (g r) = 4) rows"
  shows "A_nonlin p x = Inr (contiguous [b, 4, 4] (concat (map (\<lambda>r. A_of p (g r)) rows)))"
proof -
  let ?s = "\<lambda>r. friction_speeds (g r)"
  have n: "A3_norm p x = Inr (contiguous [b, 2, 1] (concat (map (\<lambda>r. [0, speed (g r)]) rows)))"
    using p(3) x assms(7,8) gl by (rule A3_norm_rows)
  have k: "A3_kron (contiguous [b, 2, 1] (concat (map (\<lambda>r. [0, speed (g r)]) rows)))
      = contiguous [b, 4, 1] (concat (map ?s rows))"
    unfolding friction_speeds_def using assms(8) by (rule A3_kron_rows)
  have sq: "squeeze_last (contiguous [b, 4, 1] (concat (map ?s rows)))
      = \<lparr>shape = [b, 4], strides = butlast (contiguous_strides [b, 4, 1]), elems = concat (map ?s rows)\<rparr>"
    by (simp add: squeeze_last_def)
  have sl: "list_all (\<lambda>r. length (?s r) = 4) rows"
    by (simp add: friction_speeds_def list_all_iff)
  have d: "diag_embed \<lparr>shape = [b, 4], strides = butlast (contiguous_strides [b, 4, 1]), elems = concat (map ?s rows)\<rparr>
      = Inr (contiguous [b, 4, 4] (concat (map (\<lambda>r. diag_rows (?s r)) rows)))"
    by (rule diag_embed_rows [OF _ _ assms(8) sl]) simp_all
  define g2 where "g2 = (\<lambda>r. map ((*) (step_h p)) (map ((*) (- b2 / mass p)) (diag_rows (?s r))))"
  have sm: "smul (step_h p) (smul (- b2 / mass p) (contiguous [b, 4, 4] (concat (map (\<lambda>r. diag_rows (?s r)) rows))))
      = contiguous [b, 4, 4] (concat (map g2 rows))"
    by (simp add: smul_def contiguous_def map_concat comp_def g2_def)
  have g2l: "list_all (\<lambda>r. length (g2 r) = prod_list [4, 4]) rows"
    by (simp add: g2_def friction_speeds_def list_all_iff)
  have a: "tensor_add (A_lin p) (contiguous [b, 4, 4] (concat (map g2 rows)))
      = Inr (contiguous [b, 4, 4] (concat (map (\<lambda>r. map (\<lambda>(x, y). x + y) (zip (elems (A_lin p)) (g2 r))) rows)))"
    unfolding tensor_add_def
    by (rule op_rows_bcast_left [OF p(4) _ _ _ assms(8) g2l]) (simp_all add: p(5))
  show ?thesis
    unfolding A_nonlin_def A_of_def
    by (simp only: p(1,2) if_False n k sq d sm a bind_err.simps Let_def option.case)
       (simp only: g2_def)
qed

lemma matmul_transposed:
  assumes "length d = 4" "length A = 16"
  shows "matmul 1 4 4 d (concat (map (\<lambda>j. concat (map (\<lambda>row. take 1 (drop j row)) (pieces 4 4 A))) [0..<4]))
    = map (dot d) (pieces 4 4 A)"
proof -
  obtain d0 d1 d2 d3 where d: "d = [d0, d1, d2, d3]"
    using assms(1) len4 by blast
  obtain a0 a1 a2 a3 a4 a5 a6 a7 a8 a9 a10 a11 a12 a13 a14 a15 where
    A: "A = [a0, a1, a2, a3, a4, a5, a6, a7, a8, a9, a10, a11, a12, a13, a14, a15]"
    using len16 [OF assms(2)] by (elim exE) simp
  show ?thesis
    unfolding d A by (simp add: matmul_def dot_def)
qed

lemma dot_commute: "dot xs ys = dot ys xs"
proof -
  have "map (\<lambda>(x, y). x * y) (zip xs ys) = map (\<lambda>(x, y). x * y) (zip ys xs)"
    by (subst zip_commute) (simp add: case_prod_unfold mult.commute)
  then show ?thesis by (simp add: dot_def)
qed

lemma init_plant_ok:
  assumes "init xbar0 lin xi0 ui0 k0 = Inr p" "wf_tensor xbar0" "wf_opt xi0"
  shows "plant_ok p"
  using init_fields [OF assms] by (simp add: plant_ok_def)

lemma noiseless_forward_nonlinear_rows:
  assumes p: "\<not> linear_plant p" "plant_ok p"
    and x: "batched b 4 x" and u: "batched b 2 u"
  shows "noiseless_forward p t x u = Inr (contiguous [b, 1, 4]
    (concat (map (\<lambda>r. step_row p (fst r) (snd r))
      (zip (pieces b 4 (elems x)) (pieces b 2 (elems u))))))"
proof -
  let ?rows = "zip (pieces b 4 (elems x)) (pieces b 2 (elems u))"
  let ?xb = "elems (xbar p)"
  have pf: "state_dim p = 4" "in_dim p = 2" "shape (xbar p) = [1, 4]" "length ?xb = 4"
    "shape (A_lin p) = [4, 4]" "length (elems (A_lin p)) = 16" "shape (B_in p) = [4, 2]"
    "mask p = contiguous [2, 2] [0, 0, 1, 1]"
    using p(2) by (simp_all add: plant_ok_def)
  obtain b2 where b2: "fric_b2 p = Some b2"
    using p by (auto simp: plant_ok_def)
  obtain x1 where x1: "view_m1 [1, 4] x = Inr x1" "batched b 4 x1" "elems x1 = elems x"
    using view_batched [OF x] by auto
  obtain u1 where u1: "view_m1 [1, 2] u = Inr u1" "batched b 2 u1" "elems u1 = elems u"
    using view_batched [OF u] by auto
  have n: "length ?rows = b" by simp
  have lx: "length (elems x) = b * 4" and lu: "length (elems u) = b * 2"
    using x u by (simp_all add: batched_def)
  have ex: "elems x1 = concat (map fst ?rows)" and eu: "elems u1 = concat (map snd ?rows)"
    using x1 u1 lx lu by (simp_all add: concat_pieces)
  have fl: "list_all (\<lambda>r. length (fst r) = 4) ?rows" and sl: "list_all (\<lambda>r. length (snd r) = 2) ?rows"
    using lx lu by (simp_all add: rows_fst_len rows_snd_len)
  have shx: "shape x1 = b # [1, 4]" and shu: "shape u1 = [b, 1, 2]"
    using x1 u1 by (simp_all add: batched_def)
  define g1 where "g1 = (\<lambda>r :: real list \<times> real list. vsub (fst r) ?xb)"
  have d: "tensor_sub x1 (xbar p) = Inr (contiguous [b, 1, 4] (concat (map g1 ?rows)))"
    unfolding tensor_sub_def g1_def vsub_def
    using op_rows_bcast [OF shx pf(3) _ ex n, of "(-)"] fl pf(4) by simp
  have g1l: "list_all (\<lambda>r. length (g1 r) = 1 * 4) ?rows"
    using fl pf(4) by (simp add: g1_def vsub_def list_all_iff)
  define gA where "gA = (\<lambda>r :: real list \<times> real list. A_of p (fst r))"
  have A: "A_nonlin p x1 = Inr (contiguous [b, 4, 4] (concat (map gA ?rows)))"
    unfolding gA_def
    by (rule A_nonlin_rows [OF p(1) b2 pf(8) pf(5) pf(6) x1(2) ex n fl])
  have gAl: "list_all (\<lambda>r. length (gA r) = 4 * 4) ?rows"
    using pf(6) by (simp add: gA_def A_of_def b2 friction_speeds_def list_all_iff)
  define gT where "gT = (\<lambda>r. concat (map (\<lambda>j. concat (map (\<lambda>row. take 1 (drop j row))
      (pieces 4 4 (gA r)))) [0..<4]))"
  obtain At where At: "transpose12 (contiguous [b, 4, 4] (concat (map gA ?rows))) = Inr At"
      "shape At = [b, 4, 4]" "elems At = concat (map gT ?rows)"
    using transpose12_rows [of "contiguous [b, 4, 4] (concat (map gA ?rows))" b 4 4 gA ?rows]
      gAl n unfolding gT_def by auto
  have gTl: "list_all (\<lambda>r. length (gT r) = 4 * 4) ?rows"
  proof -
    have "length (gT r) = 16" if "r \<in> set ?rows" for r
    proof -
      have "length (gA r) = 16" using gAl that by (simp add: list_all_iff)
      then show ?thesis by (simp add: gT_def)
    qed
    then show ?thesis by (simp add: list_all_iff)
  qed
  define g2 where "g2 = (\<lambda>r. matmul 1 4 4 (g1 r) (gT r))"
  have m: "bmm (contiguous [b, 1, 4] (concat (map g1 ?rows))) At
      = Inr (contiguous [b, 1, 4] (concat (map g2 ?rows)))"
    unfolding g2_def
    by (rule bmm_rows [OF _ At(2) _ At(3) n g1l gTl]) simp_all
  have g2eq: "g2 r = mat_vec (pieces 4 4 (gA r)) (g1 r)" if "r \<in> set ?rows" for r
  proof -
    have "length (gA r) = 16" "length (g1 r) = 4"
      using gAl g1l that by (simp_all add: list_all_iff)
    then show ?thesis
      unfolding g2_def gT_def mat_vec_def
      by (simp only: matmul_transposed) (simp add: dot_commute)
  qed
  have g2l: "list_all (\<lambda>r. length (g2 r) = 4) ?rows"
    using g2eq by (simp add: list_all_iff mat_vec_def)
  define g3 where "g3 = (\<lambda>r :: real list \<times> real list. map (dot (snd r)) (pieces 4 2 (elems (B_in p))))"
  have bu: "F_linear u1 (B_in p) = Inr (contiguous [b, 1, 4] (concat (map g3 ?rows)))"
    unfolding g3_def by (rule F_linear_rows [OF shu pf(7) eu n sl])
  have g3l: "list_all (\<lambda>r. length (g3 r) = 4) ?rows"
    by (simp add: g3_def list_all_iff)
  define g4 where "g4 = (\<lambda>r. vadd (g2 r) (g3 r))"
  have s: "tensor_add (contiguous [b, 1, 4] (concat (map g2 ?rows)))
        (contiguous [b, 1, 4] (concat (map g3 ?rows)))
      = Inr (contiguous [b, 1, 4] (concat (map g4 ?rows)))"
    unfolding tensor_add_def g4_def vadd_def
    by (rule op_rows_same [where k = 4, OF _ _ _ _ _ g2l g3l]) simp_all
  have g4l: "list_all (\<lambda>r. length (g4 r) = 4) ?rows"
    using g2l g3l by (simp add: g4_def vadd_def list_all_iff)
  have f: "tensor_add (contiguous [b, 1, 4] (concat (map g4 ?rows))) (xbar p)
      = Inr (contiguous [b, 1, 4] (concat (map (\<lambda>r. vadd (g4 r) ?xb) ?rows)))"
    unfolding tensor_add_def vadd_def
    using op_rows_bcast [where sh = "[1, 4]" and f = "(+)" and g = g4, OF _ pf(3) _ _ n] g4l pf(4)
    by simp
  have fin: "map (\<lambda>r. vadd (g4 r) ?xb) ?rows = map (\<lambda>r. step_row p (fst r) (snd r)) ?rows"
  proof (rule map_cong [OF refl])
    fix r assume r: "r \<in> set ?rows"
    have "g3 r = mat_vec (pieces 4 2 (elems (B_in p))) (snd r)"
      by (simp add: g3_def mat_vec_def dot_commute)
    then show "vadd (g4 r) ?xb = step_row p (fst r) (snd r)"
      using g2eq [OF r] by (simp add: g4_def step_row_def gA_def g1_def)
  qed
  show ?thesis
    unfolding noiseless_forward_def
    by (simp only: p(1) pf(1,2) x1(1) u1(1) bind_err.simps d A At(1) m bu s f if_False fin)
qed

section \<open>One step on a batch\<close>

lemma op_same_flat:
  assumes "shape a = sh" "shape c = sh"
    and "length (elems a) = prod_list sh" "length (elems c) = prod_list sh"
  shows "broadcast_op f a c = Inr (contiguous sh (map (\<lambda>(x, y). f x y) (zip (elems a) (elems c))))"
  using assms
  by (simp add: broadcast_op_def Let_def broadcast_shapes_same broadcast_map_same
      del: broadcast_map.simps broadcast_shapes.simps)

lemma length_step_row: "length (elems (xbar p)) = 4 \<Longrightarrow> length (step_row p xr ur) = 4"
  by (simp add: step_row_def vadd_def mat_vec_def)

lemma A_of_linear: "fric_b2 p = None \<Longrightarrow> A_of p r = elems (A_lin p)"
  by (simp add: A_of_def)

lemma noiseless_forward_rows:
  assumes p: "plant_ok p" and x: "batched b 4 x" and u: "batched b 2 u"
  shows "noiseless_forward p t x u =
    Inr (contiguous [b, 1, 4] (noiseless_batch p b (elems x) (elems u)))"
proof (cases "linear_plant p")
  case False
  then show ?thesis
    using noiseless_forward_nonlinear_rows [OF False p x u]
    by (simp add: noiseless_batch_def case_prod_unfold)
next
  case True
  have pf: "state_dim p = 4" "in_dim p = 2" "shape (xbar p) = [1, 4]" "length (elems (xbar p)) = 4"
    "shape (A_lin p) = [4, 4]" "shape (B_in p) = [4, 2]" "fric_b2 p = None"
    using p True by (simp_all add: plant_ok_def)
  show ?thesis
    using noiseless_forward_linear_rows [OF True pf(1-6) x u]
    by (simp add: noiseless_batch_def case_prod_unfold step_row_def A_of_linear [OF pf(7)]
        vadd_def vsub_def mat_vec_def dot_commute)
qed

lemma length_noiseless_batch:
  "length (elems (xbar p)) = 4 \<Longrightarrow> length (noiseless_batch p b xs us) = b * 4"
proof -
  assume l: "length (elems (xbar p)) = 4"
  have "list_all (\<lambda>r. length ((\<lambda>(xr, ur). step_row p xr ur) r) = 4) (zip (pieces b 4 xs) (pieces b 2 us))"
    using l by (simp add: list_all_iff case_prod_unfold length_step_row)
  then show ?thesis
    unfolding noiseless_batch_def by (simp add: length_concat_rows)
qed

lemma forward_rows:
  assumes p: "plant_ok p" and x: "batched b 4 x" and u: "batched b 2 u" and w: "batched b 4 w"
  shows "forward p t x u w =
    Inr (contiguous [b, 1, 4] (step_batch p b (elems x) (elems u) (elems w)))"
proof -
  have pf: "state_dim p = 4" "length (elems (xbar p)) = 4"
    using p by (simp_all add: plant_ok_def)
  obtain w1 where w1: "view_m1 [1, 4] w = Inr w1" "batched b 4 w1" "elems w1 = elems w"
    using view_batched [OF w] by auto
  have "tensor_add (contiguous [b, 1, 4] (noiseless_batch p b (elems x) (elems u))) w1
      = Inr (contiguous [b, 1, 4] (step_batch p b (elems x) (elems u) (elems w)))"
    unfolding tensor_add_def step_batch_def vadd_def
    using op_same_flat [of "contiguous [b, 1, 4] (noiseless_batch p b (elems x) (elems u))"
        "[b, 1, 4]" w1 "(+)"] w1 pf(2)
    by (simp add: batched_def length_noiseless_batch)
  then show ?thesis
    unfolding forward_def
    by (simp only: noiseless_forward_rows [OF p x u] pf(1) w1(1) bind_err.simps)
qed

section \<open>The dynamics\<close>

lemma init_example: "init xbar_example lin None None k0 = Inr (example_plant lin k0)"
  by (simp add: init_def xbar_example_def example_plant_def reshape_1_m1_def torch_zeros_def
      compute_A_lin_eq compute_B_def smul_def contiguous_def Let_def replicate_2)

lemma wf_xbar_example: "wf_tensor xbar_example"
  by (simp add: wf_tensor_def xbar_example_def)

lemma plant_ok_example: "plant_ok (example_plant lin k0)"
  using init_plant_ok [OF init_example wf_xbar_example] by (simp add: wf_opt_def)

lemma batched_contiguous:
  "length xs = b * k \<Longrightarrow> batched b k (contiguous [b, 1, k] xs)"
  by (simp add: batched_def)

lemma diag_rows_4:
  "diag_rows [a, b, c, d] = [a, 0, 0, 0, 0, b, 0, 0, 0, 0, c, 0, 0, 0, 0, d]"
  by (simp add: diag_rows_def)

text \<open>Unfolding the dynamics of one row on concrete numbers.\<close>

lemmas row_eval = step_row_def A_of_def friction_speeds_def diag_rows_4 vadd_def vsub_def
  mat_vec_def dot_def example_plant_def

section \<open>The loop of the rollout\<close>

lemma slice_time_3:
  "shape X = [b, T, k] \<Longrightarrow>
   slice_time X j = Inr \<lparr>shape = [b, if j < T then 1 else 0, k], strides = strides X,
                        elems = time_slice b T k j (elems X)\<rparr>"
  by (simp add: slice_time_def time_slice_def)

lemma length_time_slice:
  assumes "length xs = b * (T * k)" "j < T"
  shows "length (time_slice b T k j xs) = b * k"
proof -
  have "(Suc j) * k \<le> T * k" using assms(2) by (simp add: Suc_leI mult_le_mono1 del: mult_Suc)
  then have "list_all (\<lambda>blk. length (take k (drop (j * k) blk)) = k) (pieces b (T * k) xs)"
    using assms(1) by (auto simp: list_all_iff dest!: pieces_row_length)
  then show ?thesis
    unfolding time_slice_def by (simp add: length_concat_rows)
qed

lemma torch_cat_time:
  assumes "shape a = [b, t, k]" "shape c = [b, 1, k]"
  shows "torch_cat a c 1 = Inr (contiguous [b, Suc t, k] (cat_time b t k (elems a) (elems c)))"
proof -
  have "cat_map 0 [t, k] [Suc 0, k] = (\<lambda>xs ys. xs @ ys)"
    by (intro ext) simp
  then show ?thesis
    using assms by (simp add: torch_cat_def cat_time_def)
qed

lemma zip_rows_cat:
  assumes "length xs = b * (t * k)" "length ys = b * k"
  shows "list_all (\<lambda>r. length ((\<lambda>(x, y). x @ y) r) = Suc t * k)
      (zip (pieces b (t * k) xs) (pieces b k ys))"
proof -
  have "length x + length y = Suc t * k"
    if "(x, y) \<in> set (zip (pieces b (t * k) xs) (pieces b k ys))" for x y
  proof -
    have "x \<in> set (pieces b (t * k) xs)" "y \<in> set (pieces b k ys)"
      using that by (auto dest: set_zip_leftD set_zip_rightD)
    then have "length x = t * k" "length y = k"
      using assms by (auto dest: pieces_row_length)
    then show ?thesis by simp
  qed
  then show ?thesis by (auto simp: list_all_iff)
qed

lemma length_cat_time:
  assumes "length xs = b * (t * k)" "length ys = b * k"
  shows "length (cat_time b t k xs ys) = b * (Suc t * k)"
proof -
  have "list_all (\<lambda>r. length ((\<lambda>(x, y). x @ y) r) = Suc t * k)
      (zip (pieces b (t * k) xs) (pieces b k ys))"
    using zip_rows_cat [OF assms] .
  then show ?thesis
    unfolding cat_time_def by (simp add: length_concat_rows)
qed

lemma time_slice_cat_time:
  assumes "length xs = b * (t * k)" "length ys = b * k" "j \<le> t"
  shows "time_slice b (Suc t) k j (cat_time b t k xs ys)
    = (if j < t then time_slice b t k j xs else ys)"
proof -
  let ?X = "pieces b (t * k) xs" and ?Y = "pieces b k ys"
  have rows: "list_all (\<lambda>r. length ((\<lambda>(x, y). x @ y) r) = Suc t * k) (zip ?X ?Y)"
    using zip_rows_cat [OF assms(1,2)] .
  have p: "pieces b (Suc t * k) (cat_time b t k xs ys) = map (\<lambda>(x, y). x @ y) (zip ?X ?Y)"
    unfolding cat_time_def by (rule pieces_concat_map [OF rows]) simp
  have lenX: "\<And>x. x \<in> set ?X \<Longrightarrow> length x = t * k" and lenY: "\<And>y. y \<in> set ?Y \<Longrightarrow> length y = k"
    using assms(1,2) by (auto dest: pieces_row_length)
  show ?thesis
  proof (cases "j < t")
    case True
    then have le: "Suc j * k \<le> t * k" by (simp add: Suc_leI mult_le_mono1 del: mult_Suc)
    have "map (\<lambda>r. take k (drop (j * k) ((\<lambda>(x, y). x @ y) r))) (zip ?X ?Y)
        = map (\<lambda>r. take k (drop (j * k) (fst r))) (zip ?X ?Y)"
      using le by (intro map_cong [OF refl]) (auto dest!: set_zip_leftD lenX)
    also have "\<dots> = map (\<lambda>x. take k (drop (j * k) x)) (map fst (zip ?X ?Y))"
      by (simp only: map_map comp_def)
    also have "map fst (zip ?X ?Y) = ?X" by simp
    finally show ?thesis
      using True by (simp add: time_slice_def p comp_def del: mult_Suc)
  next
    case False
    then have j: "j = t" using assms(3) by simp
    have "map (\<lambda>r. take k (drop (t * k) ((\<lambda>(x, y). x @ y) r))) (zip ?X ?Y)
        = map snd (zip ?X ?Y)"
    proof (rule map_cong [OF refl])
      fix r assume "r \<in> set (zip ?X ?Y)"
      then have "fst r \<in> set ?X" "snd r \<in> set ?Y"
        by (auto dest: set_zip_leftD set_zip_rightD simp: prod_eq_iff
            intro: set_zip_leftD [of "fst r" "snd r"] set_zip_rightD [of "fst r" "snd r"])
      then have "length (fst r) = t * k" "length (snd r) = k"
        using lenX lenY by auto
      then show "take k (drop (t * k) ((\<lambda>(x, y). x @ y) r)) = snd r"
        by (simp add: case_prod_unfold)
    qed
    also have "map snd (zip ?X ?Y) = ?Y" by simp
    finally show ?thesis
      using j assms(2) by (simp add: time_slice_def p comp_def concat_pieces del: mult_Suc)
  qed
qed

lemma time_slice_single:
  "length xs = b * k \<Longrightarrow> time_slice b (Suc 0) k 0 xs = xs"
proof -
  assume l: "length xs = b * k"
  have "map (\<lambda>blk. take k (drop 0 blk)) (pieces b k xs) = map (\<lambda>blk. blk) (pieces b k xs)"
    using l by (intro map_cong [OF refl]) (auto dest: pieces_row_length)
  then show ?thesis using l by (simp add: time_slice_def concat_pieces)
qed

lemma repeat_b11_row:
  "shape t = [1, k] \<Longrightarrow>
   repeat_b11 b t = Inr (contiguous [b, 1, k] (concat (replicate b (elems t))))"
  by (simp add: repeat_b11_def pad_shape_def numeral_eq_Suc)

lemma length_concat_replicate [simp]: "length (concat (replicate b xs)) = b * length xs"
  by (induction b) auto

lemma slice_time_batched:
  assumes "data_ok b T data" "t < T"
  shows "\<exists>w. slice_time data t = Inr w \<and> batched b 4 w
    \<and> elems w = time_slice b T 4 t (elems data)"
  using assms slice_time_3 [of data b T 4 t]
  by (simp add: data_ok_def batched_def length_time_slice)

lemma length_step_batch:
  "length (elems (xbar p)) = 4 \<Longrightarrow> length ws = b * 4 \<Longrightarrow> length (step_batch p b xs us ws) = b * 4"
  by (simp add: step_batch_def vadd_def length_noiseless_batch)

lemma simulate_step:
  assumes ok: "plant_ok p" "ctrl_ok c b" "data_ok b T data" and t: "t < T"
    and st: "run_steps p c data st0 t = Inr (x, u, s)" "batched b 4 x" "batched b 2 u"
    and lg: "logged p c data st0 b t lg"
  shows "\<exists>x' u' lg' s'.
    simulate p c data (t # ts) (x, u, lg, s) = simulate p c data ts (x', u', lg', s')
    \<and> run_steps p c data st0 (Suc t) = Inr (x', u', s')
    \<and> batched b 4 x' \<and> batched b 2 u' \<and> logged p c data st0 b (Suc t) lg'"
proof -
  obtain w where w: "slice_time data t = Inr w" "batched b 4 w"
    using slice_time_batched [OF ok(3) t] by auto
  define x' where "x' = contiguous [b, 1, 4] (step_batch p b (elems x) (elems u) (elems w))"
  have f: "forward p t x u w = Inr x'"
    unfolding x'_def by (rule forward_rows [OF ok(1) st(2,3) w(2)])
  have lxb: "length (elems (xbar p)) = 4" using ok(1) by (simp add: plant_ok_def)
  have bx: "batched b 4 x'"
    using w(2) lxb by (simp add: x'_def batched_def length_step_batch)
  obtain u' s' where cl: "call c t x' s = (u', s')" by (cases "call c t x' s")
  have bu: "batched b 2 u'"
    using ok(2) bx cl unfolding ctrl_ok_def by (metis fst_conv)
  have rs: "run_steps p c data st0 (Suc t) = Inr (x', u', s')"
    by (simp add: st(1) w(1) f cl)
  have shx: "shape x' = [b, 1, 4]" "length (elems x') = b * 4"
    and shu: "shape u' = [b, 1, 2]" "length (elems u') = b * 2"
    using bx bu by (simp_all add: batched_def)
  show ?thesis
  proof (cases "t = 0")
    case True
    have "logged p c data st0 b (Suc t) (Some (x', u'))"
      using True rs shx shu by (simp add: logged_def time_slice_single)
    moreover have "simulate p c data (t # ts) (x, u, lg, s)
        = simulate p c data ts (x', u', Some (x', u'), s')"
      by (simp add: w(1) f cl) (simp add: True)
    ultimately show ?thesis using rs bx bu by blast
  next
    case False
    then obtain xl ul where l: "lg = Some (xl, ul)" "shape xl = [b, t, 4]"
        "length (elems xl) = b * (t * 4)" "shape ul = [b, t, 2]" "length (elems ul) = b * (t * 2)"
      and old: "\<forall>j<t. \<exists>xj uj sj. run_steps p c data st0 (Suc j) = Inr (xj, uj, sj)
                \<and> time_slice b t 4 j (elems xl) = elems xj
                \<and> time_slice b t 2 j (elems ul) = elems uj"
      using lg by (auto simp: logged_def split: option.splits)
    define xl' where "xl' = contiguous [b, Suc t, 4] (cat_time b t 4 (elems xl) (elems x'))"
    define ul' where "ul' = contiguous [b, Suc t, 2] (cat_time b t 2 (elems ul) (elems u'))"
    have cx: "torch_cat xl x' 1 = Inr xl'" and cu: "torch_cat ul u' 1 = Inr ul'"
      unfolding xl'_def ul'_def
      using l shx shu torch_cat_time [of xl b t 4 x'] torch_cat_time [of ul b t 2 u']
      by simp_all
    have sim: "simulate p c data (t # ts) (x, u, lg, s)
        = simulate p c data ts (x', u', Some (xl', ul'), s')"
      using False cx cu by (simp add: w(1) f cl l(1))
    have sl: "\<exists>xj uj sj. run_steps p c data st0 (Suc j) = Inr (xj, uj, sj)
        \<and> time_slice b (Suc t) 4 j (elems xl') = elems xj
        \<and> time_slice b (Suc t) 2 j (elems ul') = elems uj" if "j < Suc t" for j
    proof (cases "j < t")
      case True
      then show ?thesis
        using old l(3,5) shx(2) shu(2)
        by (simp add: xl'_def ul'_def time_slice_cat_time)
    next
      case False
      then have "j = t" using that by simp
      then show ?thesis
        using rs l(3,5) shx(2) shu(2)
        by (simp add: xl'_def ul'_def time_slice_cat_time)
    qed
    have "logged p c data st0 b (Suc t) (Some (xl', ul'))"
      unfolding logged_def using sl l(3,5) shx(2) shu(2)
      by (simp add: xl'_def ul'_def length_cat_time del: mult_Suc)
    then show ?thesis using sim rs bx bu by blast
  qed
qed

lemma simulate_run:
  assumes ok: "plant_ok p" "ctrl_ok c b" "data_ok b T data"
  shows "t + n = T \<Longrightarrow> run_steps p c data st0 t = Inr (x, u, s) \<Longrightarrow> batched b 4 x \<Longrightarrow>
    batched b 2 u \<Longrightarrow> logged p c data st0 b t lg \<Longrightarrow>
    \<exists>x' u' lg' s'. simulate p c data [t..<T] (x, u, lg, s) = Inr (x', u', lg', s')
      \<and> run_steps p c data st0 T = Inr (x', u', s') \<and> logged p c data st0 b T lg'"
proof (induction n arbitrary: t x u s lg)
  case 0
  then show ?case by simp
next
  case (Suc n)
  then have t: "t < T" by simp
  obtain x' u' lg' s' where
    step: "simulate p c data (t # [Suc t..<T]) (x, u, lg, s)
      = simulate p c data [Suc t..<T] (x', u', lg', s')"
    and nx: "run_steps p c data st0 (Suc t) = Inr (x', u', s')" "batched b 4 x'" "batched b 2 u'"
      "logged p c data st0 b (Suc t) lg'"
    using simulate_step [OF ok t Suc.prems(2-5)] by blast
  have "Suc t + n = T" using Suc.prems(1) by simp
  from Suc.IH [OF this nx]
  show ?case using step t by (simp add: upt_conv_Cons)
qed

lemma rollout_run:
  assumes ok: "plant_ok p" "ctrl_ok c b" "data_ok b T data"
    and ui: "shape (u_init p) = [1, 2]" "length (elems (u_init p)) = 2" and T: "0 < T"
  shows "\<exists>X U x u s. rollout p c s0 data train = (Inr (X, None, U), reset c s)
    \<and> run_steps p c data (start p c b s0) T = Inr (x, u, s)
    \<and> logged p c data (start p c b s0) b T (Some (X, U))"
proof -
  let ?x0 = "contiguous [b, 1, 4] (concat (replicate b (elems (x_init p))))"
  let ?u0 = "contiguous [b, 1, 2] (concat (replicate b (elems (u_init p))))"
  have xi: "shape (x_init p) = [1, 4]" "length (elems (x_init p)) = 4"
    using ok(1) by (simp_all add: plant_ok_def)
  have r: "repeat_b11 b (x_init p) = Inr ?x0" "repeat_b11 b (u_init p) = Inr ?u0"
    using xi ui by (simp_all add: repeat_b11_row)
  have b0: "batched b 4 ?x0" "batched b 2 ?u0"
    using xi ui by (simp_all add: batched_def)
  have "\<exists>x' u' lg' s'. simulate p c data [0..<T] (?x0, ?u0, None, reset c s0) = Inr (x', u', lg', s')
      \<and> run_steps p c data (start p c b s0) T = Inr (x', u', s')
      \<and> logged p c data (start p c b s0) b T lg'"
    using b0 by (intro simulate_run [OF ok, of 0 T]) (simp_all add: start_def logged_def)
  then obtain x' u' lg' s' where
    sim: "simulate p c data [0..<T] (?x0, ?u0, None, reset c s0) = Inr (x', u', lg', s')"
    and rs: "run_steps p c data (start p c b s0) T = Inr (x', u', s')"
    and lg: "logged p c data (start p c b s0) b T lg'"
    by blast
  obtain X U where l: "lg' = Some (X, U)"
    using lg T by (cases lg') (auto simp: logged_def)
  have sh: "shape data = [b, T, 4]" using ok(3) by (simp add: data_ok_def)
  have "rollout p c s0 data train = (Inr (X, None, U), reset c s')"
    using r sim by (simp add: rollout_def sh l Let_def)
  then show ?thesis using rs lg l by blast
qed

section \<open>Trajectories\<close>

lemma ctrl_ok_zero: "ctrl_ok zero_controller b"
  by (simp add: ctrl_ok_def zero_controller_def batched_def)

lemma ctrl_ok_damping: "ctrl_ok damping_controller b"
proof -
  have "length (concat (map (\<lambda>r. [- (r ! 2), - (r ! 3)]) (pieces b 4 xs))) = b * 2" for xs :: "real list"
    using length_concat_rows [of "\<lambda>r. [- (r ! 2), - (r ! 3)]" 2 "pieces b 4 xs"]
    by (simp add: list_all_iff)
  then show ?thesis
    by (simp add: ctrl_ok_def damping_controller_def batched_def)
qed

lemma run_steps_Suc_Inr:
  assumes "run_steps p c data st (Suc j) = Inr (x', u', s')"
  shows "\<exists>x u s w. run_steps p c data st j = Inr (x, u, s) \<and> slice_time data j = Inr w
    \<and> forward p j x u w = Inr x' \<and> call c j x' s = (u', s')"
proof -
  obtain x u s where a: "run_steps p c data st j = Inr (x, u, s)"
    using assms by (cases "run_steps p c data st j") auto
  obtain w where b: "slice_time data j = Inr w"
    using assms a by (cases "slice_time data j") auto
  obtain y where c: "forward p j x u w = Inr y"
    using assms a b by (cases "forward p j x u w") auto
  show ?thesis
    using assms a b c by (auto split: prod.splits)
qed



text \<open>Unfolding the dynamics of a batch and the time slices on concrete numbers.\<close>

lemmas batch_eval = step_batch_def noiseless_batch_def time_slice_def cat_time_def












text \<open>The rollout of the linear example plant under the damping controller, computed.\<close>

lemma rollout_example:
  "rollout (example_plant True 3) damping_controller 0 noise_example False
     = (Inr (contiguous [2, 2, 4] [1, 2, 0, 0,  2, 2, 0, 0,  1, 2, 1, 0,  21 / 20, 2, 9 / 10, 0],
             None,
             contiguous [2, 2, 2] [0, 0,  0, 0,  - 1, 0,  - (9 / 10), 0]), 0)"
proof -
  let ?p = "example_plant True 3"
  let ?x0 = "contiguous [2, 1, 4] [1, 2, 0, 0, 1, 2, 0, 0]"
  let ?u0 = "contiguous [2, 1, 2] [0, 0, 0, 0]"
  let ?w0 = "\<lparr>shape = [2, 1, 4], strides = [8, 4, 1], elems = [0, 0, 0, 0, 0, 0, 1, 0 :: real]\<rparr>"
  let ?w1 = "\<lparr>shape = [2, 1, 4], strides = [8, 4, 1], elems = [1, 0, 0, 0, 0, 0, 0, 0 :: real]\<rparr>"
  let ?x1 = "contiguous [2, 1, 4] [1, 2, 0, 0, 1, 2, 1, 0]"
  let ?u1 = "contiguous [2, 1, 2] [0, 0, - 1, 0]"
  let ?x2 = "contiguous [2, 1, 4] [2, 2, 0, 0, 21 / 20, 2, 9 / 10, 0]"
  let ?u2 = "contiguous [2, 1, 2] [0, 0, - (9 / 10), 0]"
  have r: "repeat_b11 2 (x_init ?p) = Inr ?x0" "repeat_b11 2 (u_init ?p) = Inr ?u0"
    by (simp_all add: repeat_b11_row example_plant_def replicate_2)
  have s: "slice_time noise_example 0 = Inr ?w0" "slice_time noise_example 1 = Inr ?w1"
    by (simp_all add: noise_example_def slice_time_3 batch_eval)
  have f0: "forward ?p 0 ?x0 ?u0 ?w0 = Inr ?x1"
    by (subst forward_rows [where b = 2, OF plant_ok_example])
       (simp_all add: batched_def batch_eval row_eval)
  have f1: "forward ?p 1 ?x1 ?u1 ?w1 = Inr ?x2"
    by (subst forward_rows [where b = 2, OF plant_ok_example])
       (simp_all add: batched_def batch_eval row_eval)
  have c: "call damping_controller 0 ?x1 0 = (?u1, 1)"
    "call damping_controller 1 ?x2 1 = (?u2, 2)"
    by (simp_all add: damping_controller_def)
  have k: "torch_cat ?x1 ?x2 1
      = Inr (contiguous [2, 2, 4] [1, 2, 0, 0,  2, 2, 0, 0,  1, 2, 1, 0,  21 / 20, 2, 9 / 10, 0])"
    "torch_cat ?u1 ?u2 1 = Inr (contiguous [2, 2, 2] [0, 0,  0, 0,  - 1, 0,  - (9 / 10), 0])"
    using torch_cat_time [of ?x1 2 1 4 ?x2] torch_cat_time [of ?u1 2 1 2 ?u2]
    by (simp_all add: batch_eval)
  have u: "[0..<2] = [0, 1]" by simp
  have sh: "shape noise_example = [2, 2, 4]" by (simp add: noise_example_def)
  have "simulate ?p damping_controller noise_example [0, 1] (?x0, ?u0, None, 0)
      = Inr (?x2, ?u2,
          Some (contiguous [2, 2, 4] [1, 2, 0, 0,  2, 2, 0, 0,  1, 2, 1, 0,  21 / 20, 2, 9 / 10, 0],
                contiguous [2, 2, 2] [0, 0,  0, 0,  - 1, 0,  - (9 / 10), 0]), 2)"
    using s f0 f1 c k by simp
  then show ?thesis
    using r by (simp add: rollout_def sh Let_def damping_controller_def)
qed

section \<open>Noise of the wrong width\<close>

lemma view_m1_shape:
  "view_m1 rest t = Inr t' \<Longrightarrow> shape t' = (prod_list (shape t) div prod_list rest) # rest"
  by (auto simp: view_m1_def Let_def split: if_splits option.splits)

lemma view_m1_error: "view_m1 rest t = Inl e \<Longrightarrow> e = RuntimeError"
  by (auto simp: view_m1_def Let_def split: if_splits option.splits)

lemma view_m1_indivisible:
  "prod_list (shape t) mod prod_list rest \<noteq> 0 \<Longrightarrow> view_m1 rest t = Inl RuntimeError"
  by (simp add: view_m1_def Let_def)

lemma tensor_add_mismatch:
  assumes "shape a = [b, 1, 4]" "shape c = [n, 1, 4]" "n \<noteq> b" "n \<noteq> 1" "b \<noteq> 1"
  shows "tensor_add a c = Inl RuntimeError"
  using assms by (simp add: tensor_add_def broadcast_op_def Let_def pad_shape_def)

section \<open>Batch independence\<close>

lemma time_slice_split:
  "time_slice 2 T k j xs
     = time_slice 1 T k j (take (T * k) xs) @ time_slice 1 T k j (take (T * k) (drop (T * k) xs))"
  by (simp add: time_slice_def)

lemma vadd_append:
  "length a = length c \<Longrightarrow> vadd (a @ b) (c @ d) = vadd a c @ vadd b d"
  by (simp add: vadd_def)

lemma step_batch_split:
  assumes "length (elems (xbar p)) = 4"
    and "length x0 = 4" "length x1 = 4" "length u0 = 2" "length u1 = 2" "length w0 = 4"
  shows "step_batch p 2 (x0 @ x1) (u0 @ u1) (w0 @ w1)
    = step_batch p 1 x0 u0 w0 @ step_batch p 1 x1 u1 w1"
  using assms by (simp add: step_batch_def noiseless_batch_def vadd_append length_step_row)

lemma chunks_eq:
  "length xs = T * k \<Longrightarrow> length ys = T * k \<Longrightarrow>
   (\<forall>j<T. take k (drop (j * k) xs) = take k (drop (j * k) ys)) \<Longrightarrow> xs = ys"
proof (induction T arbitrary: xs ys)
  case 0
  then show ?case by simp
next
  case (Suc T)
  have h: "take k xs = take k ys"
    using Suc.prems(3) [rule_format, of 0] by simp
  have "take k (drop (j * k) (drop k xs)) = take k (drop (j * k) (drop k ys))" if "j < T" for j
    using Suc.prems(3) [rule_format, of "Suc j"] that by (simp add: add.commute)
  then have "drop k xs = drop k ys"
    using Suc.prems(1,2) by (intro Suc.IH) simp_all
  then show ?case
    using h by (metis append_take_drop_id)
qed

lemma time_slice_one:
  "length xs = T * k \<Longrightarrow> time_slice 1 T k j xs = take k (drop (j * k) xs)"
  by (simp add: time_slice_def)

lemma data_ok_entry:
  assumes "data_ok 2 T data" "i < 2"
  shows "data_ok 1 T (batch_entry i T data)"
proof -
  have "length (elems data) = 2 * (T * 4)" using assms(1) by (simp add: data_ok_def)
  moreover have "i = 0 \<or> i = 1" using assms(2) by auto
  ultimately show ?thesis
    by (auto simp: data_ok_def batch_entry_def)
qed

lemma run_steps_batch:
  assumes ok: "plant_ok p" "ctrl_ok c 1" "ctrl_ok c 2" "ctrl_pointwise c R"
    and d: "data_ok 2 T data"
    and ui: "length (elems (u_init p)) = 2"
    and R0: "R (reset c sa) (reset c sb) (reset c sc)"
  shows "n \<le> T \<Longrightarrow> \<exists>x u s x0 u0 s0 x1 u1 s1.
      run_steps p c data (start p c 2 sa) n = Inr (x, u, s)
    \<and> run_steps p c (batch_entry 0 T data) (start p c 1 sb) n = Inr (x0, u0, s0)
    \<and> run_steps p c (batch_entry 1 T data) (start p c 1 sc) n = Inr (x1, u1, s1)
    \<and> batched 2 4 x \<and> batched 1 4 x0 \<and> batched 1 4 x1
    \<and> batched 2 2 u \<and> batched 1 2 u0 \<and> batched 1 2 u1
    \<and> elems x = elems x0 @ elems x1 \<and> elems u = elems u0 @ elems u1 \<and> R s s0 s1"
proof (induction n)
  case 0
  have "length (elems (x_init p)) = 4" using ok(1) by (simp add: plant_ok_def)
  then show ?case
    using ui R0 by (simp add: start_def batched_def replicate_2)
next
  case (Suc n)
  then have n: "n < T" by simp
  let ?d0 = "batch_entry 0 T data" and ?d1 = "batch_entry 1 T data"
  obtain x u s x0 u0 s0 x1 u1 s1 where
    st: "run_steps p c data (start p c 2 sa) n = Inr (x, u, s)"
      "run_steps p c ?d0 (start p c 1 sb) n = Inr (x0, u0, s0)"
      "run_steps p c ?d1 (start p c 1 sc) n = Inr (x1, u1, s1)"
    and bx: "batched 2 4 x" "batched 1 4 x0" "batched 1 4 x1"
    and bu: "batched 2 2 u" "batched 1 2 u0" "batched 1 2 u1"
    and e: "elems x = elems x0 @ elems x1" "elems u = elems u0 @ elems u1" and R: "R s s0 s1"
    using Suc by auto
  have d0: "data_ok 1 T ?d0" and d1: "data_ok 1 T ?d1"
    using data_ok_entry [OF d] by simp_all
  have ld: "length (elems data) = 2 * (T * 4)" using d by (simp add: data_ok_def)
  obtain w where w: "slice_time data n = Inr w" "batched 2 4 w"
    "elems w = time_slice 2 T 4 n (elems data)"
    using slice_time_batched [OF d n] by auto
  obtain w0 where w0: "slice_time ?d0 n = Inr w0" "batched 1 4 w0"
    "elems w0 = time_slice 1 T 4 n (elems ?d0)"
    using slice_time_batched [OF d0 n] by auto
  obtain w1 where w1: "slice_time ?d1 n = Inr w1" "batched 1 4 w1"
    "elems w1 = time_slice 1 T 4 n (elems ?d1)"
    using slice_time_batched [OF d1 n] by auto
  have ew: "elems w = elems w0 @ elems w1"
    by (simp add: w(3) w0(3) w1(3) time_slice_split [of T 4 n] batch_entry_def)
  have lxb: "length (elems (xbar p))  = 4" using ok(1) by (simp add: plant_ok_def)
  have len: "length (elems x0) = 4" "length (elems x1) = 4" "length (elems u0) = 2"
    "length (elems u1) = 2" "length (elems w0) = 4" "length (elems w1) = 4"
    using bx bu w0(2) w1(2) by (simp_all add: batched_def)
  define y0 where "y0 = step_batch p 1 (elems x0) (elems u0) (elems w0)"
  define y1 where "y1 = step_batch p 1 (elems x1) (elems u1) (elems w1)"
  have ly: "length y0 = 4" "length y1 = 4"
    using lxb len length_step_batch [of p _ 1] by (simp_all add: y0_def y1_def)
  have f: "forward p n x u w = Inr (contiguous [2, 1, 4] (y0 @ y1))"
    using forward_rows [OF ok(1) bx(1) bu(1) w(2), of n]
    by (simp add: e ew step_batch_split [OF lxb len(1-5)] y0_def y1_def)
  have f0: "forward p n x0 u0 w0 = Inr (contiguous [1, 1, 4] y0)"
    using forward_rows [OF ok(1) bx(2) bu(2) w0(2), of n] by (simp add: y0_def)
  have f1: "forward p n x1 u1 w1 = Inr (contiguous [1, 1, 4] y1)"
    using forward_rows [OF ok(1) bx(3) bu(3) w1(2), of n] by (simp add: y1_def)
  obtain v s' where cl: "call c n (contiguous [2, 1, 4] (y0 @ y1)) s = (v, s')"
    by (cases "call c n (contiguous [2, 1, 4] (y0 @ y1)) s")
  obtain v0 s0' where cl0: "call c n (contiguous [1, 1, 4] y0) s0 = (v0, s0')"
    by (cases "call c n (contiguous [1, 1, 4] y0) s0")
  obtain v1 s1' where cl1: "call c n (contiguous [1, 1, 4] y1) s1 = (v1, s1')"
    by (cases "call c n (contiguous [1, 1, 4] y1) s1")
  have bys: "batched 2 4 (contiguous [2, 1, 4] (y0 @ y1))" "batched 1 4 (contiguous [1, 1, 4] y0)"
    "batched 1 4 (contiguous [1, 1, 4] y1)"
    using ly by (simp_all add: batched_def)
  have bv: "batched 2 2 v" "batched 1 2 v0" "batched 1 2 v1"
    using ok(2,3) bys cl cl0 cl1 unfolding ctrl_ok_def by (metis fst_conv)+
  have pw: "elems v = elems v0 @ elems v1" "R s' s0' s1'"
    using ok(4) R ly cl cl0 cl1 unfolding ctrl_pointwise_def by (metis fst_conv snd_conv)+
  have "run_steps p c data (start p c 2 sa) (Suc n) = Inr (contiguous [2, 1, 4] (y0 @ y1), v, s')"
    "run_steps p c ?d0 (start p c 1 sb) (Suc n) = Inr (contiguous [1, 1, 4] y0, v0, s0')"
    "run_steps p c ?d1 (start p c 1 sc) (Suc n) = Inr (contiguous [1, 1, 4] y1, v1, s1')"
    using st w(1) w0(1) w1(1) f f0 f1 cl cl0 cl1 by simp_all
  then show ?case
    using bys bv pw by simp
qed

lemma batch_split_from_slices:
  assumes "length xs = 2 * (T * k)" "length ys = T * k" "length zs = T * k"
    and sl: "\<forall>j<T. time_slice 2 T k j xs = time_slice 1 T k j ys @ time_slice 1 T k j zs"
  shows "xs = ys @ zs"
proof -
  let ?A = "take (T * k) xs" and ?B = "drop (T * k) xs"
  have lA: "length ?A = T * k" and lB: "length ?B = T * k"
    using assms(1) by simp_all
  have eq: "take k (drop (j * k) ?A) = take k (drop (j * k) ys)
      \<and> take k (drop (j * k) ?B) = take k (drop (j * k) zs)" if jT: "j < T" for j
  proof -
    have le: "Suc j * k \<le> T * k" using jT by (simp add: Suc_leI mult_le_mono1 del: mult_Suc)
    have tB: "take (T * k) ?B = ?B" using lB by simp
    have "time_slice 2 T k j xs = take k (drop (j * k) ?A) @ take k (drop (j * k) ?B)"
      by (simp only: time_slice_split tB time_slice_one [OF lA] time_slice_one [OF lB])
    moreover have "time_slice 1 T k j ys @ time_slice 1 T k j zs
        = take k (drop (j * k) ys) @ take k (drop (j * k) zs)"
      by (simp only: time_slice_one [OF assms(2)] time_slice_one [OF assms(3)])
    moreover have "length (take k (drop (j * k) ?A)) = length (take k (drop (j * k) ys))"
      using le lA assms(2) by simp
    ultimately show ?thesis
      using sl jT by (metis append_eq_append_conv)
  qed
  have "?A = ys" using lA assms(2) eq by (intro chunks_eq [of _ T k]) simp_all
  moreover have "?B = zs" using lB assms(3) eq by (intro chunks_eq [of _ T k]) simp_all
  ultimately show ?thesis by (metis append_take_drop_id)
qed

lemma ctrl_pointwise_damping: "ctrl_pointwise damping_controller same_count"
  by (simp add: ctrl_pointwise_def damping_controller_def same_count_def)

section \<open>Controllers that read the gradient mode\<close>






section \<open>Plants built from an initial input of another shape\<close>

text \<open>
  \<^verbatim>\<open>__init__\<close> accepts a \<^verbatim>\<open>u_init\<close> of shape (3, 2) and one of shape (1, 2, 1, 1):
  it only reads \<^verbatim>\<open>shape[1]\<close> of the tensor it was given.
\<close>

lemma init_wide:
  "init xbar_example True None (Some (contiguous [3, 2] [0, 0, 0, 0, 0, 0])) 3 = Inr wide_plant"
  by (simp add: init_def xbar_example_def reshape_1_m1_def contiguous_def compute_A_lin_eq Let_def
      wide_plant_def example_plant_def compute_B_def smul_def I_plus_h_A2_def eye4_def A2_blocks_def)

lemma init_deep:
  "init xbar_example True None (Some (contiguous [1, 2, 1, 1] [0, 0])) 3 = Inr deep_plant"
  by (simp add: init_def xbar_example_def reshape_1_m1_def contiguous_def compute_A_lin_eq Let_def
      deep_plant_def example_plant_def compute_B_def smul_def I_plus_h_A2_def eye4_def A2_blocks_def)

text \<open>
  On the plant with \<^verbatim>\<open>u_init\<close> of shape (3, 2), \<^verbatim>\<open>repeat(b, 1, 1)\<close> gives an input
  of shape (b, 3, 2), which \<^verbatim>\<open>view(-1, 1, 2)\<close> reads as \<open>3 * b\<close> rows.  For \<open>b = 1\<close> the
  single state is broadcast over the three input rows; for \<open>b = 2\<close> two states meet six
  input rows and the addition in \<^verbatim>\<open>noiseless_forward\<close> fails.
\<close>

lemma noiseless_forward_wide_single:
  "noiseless_forward wide_plant 0 (contiguous [1, 1, 4] [1, 2, 0, 0])
      (contiguous [1, 3, 2] [0, 0, 0, 0, 0, 0])
     = Inr (contiguous [3, 1, 4] [1, 2, 0, 0,  1, 2, 0, 0,  1, 2, 0, 0])"
  by (simp add: noiseless_forward_def view_m1_def compute_stride_def tensor_sub_def tensor_add_def
      broadcast_op_def pad_shape_def F_linear_def dot_def Let_def wide_plant_def example_plant_def
      contiguous_def)

lemma noiseless_forward_wide_pair:
  "noiseless_forward wide_plant 0 (contiguous [2, 1, 4] [1, 2, 0, 0, 1, 2, 0, 0])
      (contiguous [2, 3, 2] [0, 0, 0, 0, 0, 0, 0, 0, 0, 0, 0, 0])
     = Inl RuntimeError"
  by (simp add: noiseless_forward_def view_m1_def compute_stride_def tensor_sub_def tensor_add_def
      broadcast_op_def pad_shape_def F_linear_def dot_def Let_def wide_plant_def example_plant_def
      contiguous_def)

lemma rollout_wide_single:
  "rollout wide_plant damping_controller 0 (contiguous [1, 1, 4] [0, 0, 1, 0]) False
     = (Inr (contiguous [3, 1, 4] [1, 2, 1, 0,  1, 2, 1, 0,  1, 2, 1, 0], None,
             contiguous [3, 1, 2] [- 1, 0,  - 1, 0,  - 1, 0]), 0)"
proof -
  let ?x0 = "contiguous [1, 1, 4] [1, 2, 0, 0]"
  let ?u0 = "contiguous [1, 3, 2] [0, 0, 0, 0, 0, 0]"
  let ?w = "\<lparr>shape = [1, 1, 4], strides = [4, 4, 1], elems = [0, 0, 1, 0 :: real]\<rparr>"
  let ?x1 = "contiguous [3, 1, 4] [1, 2, 1, 0,  1, 2, 1, 0,  1, 2, 1, 0]"
  have r: "repeat_b11 1 (x_init wide_plant) = Inr ?x0" "repeat_b11 1 (u_init wide_plant) = Inr ?u0"
    by (simp_all add: repeat_b11_def pad_shape_def wide_plant_def example_plant_def contiguous_def)
  have s: "slice_time (contiguous [1, 1, 4] [0, 0, 1, 0]) 0 = Inr ?w"
    by (simp add: slice_time_3 batch_eval)
  have v: "view_m1 [1, 4] ?w = Inr ?w"
    by (simp add: view_m1_def compute_stride_def Let_def)
  have a: "tensor_add (contiguous [3, 1, 4] [1, 2, 0, 0,  1, 2, 0, 0,  1, 2, 0, 0]) ?w = Inr ?x1"
    by (simp add: tensor_add_def broadcast_op_def pad_shape_def Let_def)
  have f: "forward wide_plant 0 ?x0 ?u0 ?w = Inr ?x1"
    using noiseless_forward_wide_single v a by (simp add: forward_def wide_plant_def example_plant_def)
  have c: "call damping_controller 0 ?x1 0 = (contiguous [3, 1, 2] [- 1, 0,  - 1, 0,  - 1, 0], 1)"
    by (simp add: damping_controller_def numeral_eq_Suc)
  show ?thesis
    using r s f c by (simp add: rollout_def Let_def damping_controller_def)
qed

lemma rollout_wide_single_still:
  "rollout wide_plant damping_controller 0 (contiguous [1, 1, 4] [0, 0, 0, 0]) False
     = (Inr (contiguous [3, 1, 4] [1, 2, 0, 0,  1, 2, 0, 0,  1, 2, 0, 0], None,
             contiguous [3, 1, 2] [0, 0,  0, 0,  0, 0]), 0)"
proof -
  let ?x0 = "contiguous [1, 1, 4] [1, 2, 0, 0]"
  let ?u0 = "contiguous [1, 3, 2] [0, 0, 0, 0, 0, 0]"
  let ?w = "\<lparr>shape = [1, 1, 4], strides = [4, 4, 1], elems = [0, 0, 0, 0 :: real]\<rparr>"
  let ?x1 = "contiguous [3, 1, 4] [1, 2, 0, 0,  1, 2, 0, 0,  1, 2, 0, 0]"
  have r: "repeat_b11 1 (x_init wide_plant) = Inr ?x0" "repeat_b11 1 (u_init wide_plant) = Inr ?u0"
    by (simp_all add: repeat_b11_def pad_shape_def wide_plant_def example_plant_def contiguous_def)
  have s: "slice_time (contiguous [1, 1, 4] [0, 0, 0, 0]) 0 = Inr ?w"
    by (simp add: slice_time_3 batch_eval)
  have v: "view_m1 [1, 4] ?w = Inr ?w"
    by (simp add: view_m1_def compute_stride_def Let_def)
  have a: "tensor_add (contiguous [3, 1, 4] [1, 2, 0, 0,  1, 2, 0, 0,  1, 2, 0, 0]) ?w = Inr ?x1"
    by (simp add: tensor_add_def broadcast_op_def pad_shape_def Let_def)
  have f: "forward wide_plant 0 ?x0 ?u0 ?w = Inr ?x1"
    using noiseless_forward_wide_single v a by (simp add: forward_def wide_plant_def example_plant_def)
  have c: "call damping_controller 0 ?x1 0 = (contiguous [3, 1, 2] [0, 0,  0, 0,  0, 0], 1)"
    by (simp add: damping_controller_def numeral_eq_Suc)
  show ?thesis
    using r s f c by (simp add: rollout_def Let_def damping_controller_def)
qed

lemma rollout_wide_pair:
  "rollout wide_plant damping_controller 0 noise_pair False = (Inl RuntimeError, 0)"
proof -
  let ?x0 = "contiguous [2, 1, 4] [1, 2, 0, 0, 1, 2, 0, 0]"
  let ?u0 = "contiguous [2, 3, 2] [0, 0, 0, 0, 0, 0, 0, 0, 0, 0, 0, 0]"
  have r: "repeat_b11 2 (x_init wide_plant) = Inr ?x0" "repeat_b11 2 (u_init wide_plant) = Inr ?u0"
    by (simp_all add: repeat_b11_def pad_shape_def wide_plant_def example_plant_def contiguous_def
        replicate_2)
  obtain w where s: "slice_time noise_pair 0 = Inr w"
    by (simp add: noise_pair_def slice_time_3)
  have f: "forward wide_plant 0 ?x0 ?u0 w = Inl RuntimeError"
    using noiseless_forward_wide_pair by (simp add: forward_def)
  show ?thesis
    using r s f by (simp add: rollout_def Let_def damping_controller_def noise_pair_def)
qed

lemma batch_entry_noise_pair:
  "batch_entry 0 1 noise_pair = contiguous [1, 1, 4] [0, 0, 0, 0]"
  "batch_entry 1 1 noise_pair = contiguous [1, 1, 4] [0, 0, 1, 0]"
  by (simp_all add: batch_entry_def noise_pair_def)

text \<open>
  On the plant with \<^verbatim>\<open>u_init\<close> of rank 4, \<^verbatim>\<open>repeat(b, 1, 1)\<close> on line 120 is given
  fewer repeats than the tensor has dimensions and fails, after the first \<^verbatim>\<open>reset()\<close>
  and before the loop.
\<close>

lemma rollout_deep_fails:
  "rollout deep_plant c s0 (contiguous [2, 0, 4] []) train = (Inl RuntimeError, reset c s0)"
  by (simp add: rollout_def deep_plant_def example_plant_def repeat_b11_def pad_shape_def
      contiguous_def Let_def)

lemma rollout_example_zero_horizon:
  "rollout (example_plant True 3) reset_counter 0 (contiguous [2, 0, 4] []) train
     = (Inl UnboundLocalError, 2)"
  by (simp add: rollout_def example_plant_def repeat_b11_def pad_shape_def
      contiguous_def Let_def reset_counter_def)

section \<open>Properties of the plant and its rollout\<close>

subsection \<open>The noiseless dynamics are affine\<close>

text \<open>
  C1.  For a constructed plant, \<^verbatim>\<open>noiseless_forward\<close> on a batch of \<open>b\<close> states and \<open>b\<close>
  inputs returns, for every batch entry, \<open>A(x) (x - xbar) + B u + xbar\<close>, where \<open>A(x)\<close> is
  \<open>A_lin\<close> for a linear plant and \<open>A_lin + h * (- b2 / m) * diag (0, 0, |v|, |v|)\<close>, with
  \<open>|v|\<close> the speed of that entry, otherwise.
\<close>

theorem noiseless_forward_affine:
  assumes "init xbar0 lin xi0 ui0 k0 = Inr p" "wf_tensor xbar0" "wf_opt xi0"
    and "batched b 4 x" "batched b 2 u"
  shows "noiseless_forward p t x u = Inr (contiguous [b, 1, 4]
      (concat (map (\<lambda>(xr, ur).
          vadd (vadd (mat_vec (pieces 4 4 (A_of p xr)) (vsub xr (elems (xbar p))))
                     (mat_vec (pieces 4 2 (elems (B_in p))) ur))
               (elems (xbar p)))
        (zip (pieces b 4 (elems x)) (pieces b 2 (elems u))))))
    \<and> A_of p xr =
      (if lin then elems (A_lin p)
       else vadd (elems (A_lin p))
              (map ((*) (step_h p)) (map ((*) (- (1 / 10) / mass p)) (diag_rows (friction_speeds xr)))))"
proof -
  have ok: "plant_ok p" using assms(1-3) by (rule init_plant_ok)
  have f: "fric_b2 p = (if lin then None else Some (1 / 10))"
    using init_fields(10) [OF assms(1-3)] .
  show ?thesis
    using noiseless_forward_rows [OF ok assms(4,5), of t] f
    by (simp add: noiseless_batch_def step_row_def [abs_def] A_of_def vadd_def)
qed

theorem noiseless_forward_affine_witness:
  "init xbar_example False None None 3 = Inr (example_plant False 3)
   \<and> wf_tensor xbar_example \<and> wf_opt None
   \<and> batched 2 4 (contiguous [2, 1, 4] [1, 2, 1, 0, 2, 2, 0, 0])
   \<and> batched 2 2 (contiguous [2, 1, 2] [1, 0, 0, 2])
   \<and> noiseless_forward (example_plant False 3) 0
        (contiguous [2, 1, 4] [1, 2, 1, 0, 2, 2, 0, 0]) (contiguous [2, 1, 2] [1, 0, 0, 2])
       = Inr (contiguous [2, 1, 4] [21 / 20, 2, 199 / 200, 0, 2, 2, - 3 / 20, 1 / 10])"
proof -
  have bx: "batched 2 4 (contiguous [2, 1, 4] [1, 2, 1, 0, 2, 2, 0, 0])"
    and bu: "batched 2 2 (contiguous [2, 1, 2] [1, 0, 0, 2])"
    by (simp_all add: batched_def)
  have w: "wf_opt None" by (simp add: wf_opt_def)
  show ?thesis
    using noiseless_forward_affine [OF init_example [of False 3] wf_xbar_example w bx bu] bx bu w
    by (simp add: init_example wf_xbar_example row_eval)
qed

subsection \<open>The state-dependent matrix\<close>

text \<open>
  C2, as the code has it.  For a constructed nonlinear plant and a batch of \<open>b\<close> states,
  \<^verbatim>\<open>A_nonlin\<close> returns \<open>A_lin + h * C(x)\<close> with \<open>C(x) = - (b2 / m) * diag s\<close>, where \<open>s\<close>
  is built as follows: the state is viewed as the two rows \<open>(p\<^sub>1, p\<^sub>2)\<close> and
  \<open>(v\<^sub>1, v\<^sub>2)\<close>; the mask zeroes the position row and keeps the velocity row; the norms of
  the two rows are \<open>0\<close> and the speed \<open>sqrt (v\<^sub>1\<^sup>2 + v\<^sub>2\<^sup>2)\<close> (shape batch, 2, 1); each norm
  is written twice, giving \<open>s = (0, 0, speed, speed)\<close> (shape batch, 4, 1).
\<close>

theorem A_nonlin_velocity_rows:
  assumes "init xbar0 False xi0 ui0 k0 = Inr p" "wf_tensor xbar0" "wf_opt xi0"
    and "batched b 4 x"
  shows "A3_norm p x
      = Inr (contiguous [b, 2, 1] (concat (map (\<lambda>r. [0, speed r]) (pieces b 4 (elems x)))))
    \<and> A3_kron (contiguous [b, 2, 1] (concat (map (\<lambda>r. [0, speed r]) (pieces b 4 (elems x)))))
      = contiguous [b, 4, 1] (concat (map friction_speeds (pieces b 4 (elems x))))
    \<and> A_nonlin p x = Inr (contiguous [b, 4, 4]
        (concat (map (\<lambda>r. vadd (elems (A_lin p))
                   (map ((*) (step_h p)) (map ((*) (- (1 / 10) / mass p)) (diag_rows (friction_speeds r)))))
           (pieces b 4 (elems x)))))"
proof -
  let ?rows = "pieces b 4 (elems x)"
  have ok: "plant_ok p" using assms(1-3) by (rule init_plant_ok)
  have f: "\<not> linear_plant p" "fric_b2 p = Some (1 / 10)"
    using init_fields(5,10) [OF assms(1-3)] by simp_all
  have pf: "mask p = contiguous [2, 2] [0, 0, 1, 1]" "shape (A_lin p) = [4, 4]"
    "length (elems (A_lin p)) = 16"
    using ok by (simp_all add: plant_ok_def)
  have lx: "length (elems x) = b * 4" using assms(4) by (simp add: batched_def)
  have ex: "elems x = concat (map (\<lambda>r. r) ?rows)" using lx by (simp add: concat_pieces)
  have n: "length ?rows = b" by simp
  have rl: "list_all (\<lambda>r. length r = 4) ?rows"
    using lx by (auto simp: list_all_iff dest: pieces_row_length)
  have 1: "A3_norm p x = Inr (contiguous [b, 2, 1] (concat (map (\<lambda>r. [0, speed r]) ?rows)))"
    by (rule A3_norm_rows [OF pf(1) assms(4) ex n rl])
  have 2: "A3_kron (contiguous [b, 2, 1] (concat (map (\<lambda>r. [0, speed r]) ?rows)))
      = contiguous [b, 4, 1] (concat (map friction_speeds ?rows))"
    using A3_kron_rows [OF n, of "\<lambda>r. r"] by (simp add: friction_speeds_def [abs_def])
  have 3: "A_nonlin p x = Inr (contiguous [b, 4, 4] (concat (map (\<lambda>r. A_of p r) ?rows)))"
    by (rule A_nonlin_rows [OF f pf assms(4) ex n rl])
  show ?thesis
    using 1 2 3 by (simp add: A_of_def f(2) vadd_def)
qed

theorem A_nonlin_velocity_rows_witness:
  "init xbar_example False None None 3 = Inr (example_plant False 3)
   \<and> wf_tensor xbar_example \<and> wf_opt None
   \<and> batched 2 4 (contiguous [2, 1, 4] [0, 0, 1, 0, 5, 6, 0, 0])
   \<and> A3_norm (example_plant False 3) (contiguous [2, 1, 4] [0, 0, 1, 0, 5, 6, 0, 0])
       = Inr (contiguous [2, 2, 1] [0, 1, 0, 0])
   \<and> A3_kron (contiguous [2, 2, 1] [0, 1, 0, 0]) = contiguous [2, 4, 1] [0, 0, 1, 1, 0, 0, 0, 0]
   \<and> A_nonlin (example_plant False 3) (contiguous [2, 1, 4] [0, 0, 1, 0, 5, 6, 0, 0])
       = Inr (contiguous [2, 4, 4]
          [1, 0, 1 / 20, 0,
           0, 1, 0, 1 / 20,
           - 3 / 20, 0, 189 / 200, 0,
           0, - 3 / 20, 0, 189 / 200,
           1, 0, 1 / 20, 0,
           0, 1, 0, 1 / 20,
           - 3 / 20, 0, 19 / 20, 0,
           0, - 3 / 20, 0, 19 / 20])"
proof -
  have b: "batched 2 4 (contiguous [2, 1, 4] [0, 0, 1, 0, 5, 6, 0, 0])"
    by (simp add: batched_def)
  have w: "wf_opt None" by (simp add: wf_opt_def)
  show ?thesis
    using A_nonlin_velocity_rows [OF init_example [of False 3] wf_xbar_example w b] b w
    by (simp add: init_example wf_xbar_example row_eval)
qed

text \<open>
  C2, as the claim states it, fails at the state \<open>(0, 0, 1, 0)\<close>: the code's diagonal is
  \<open>(0, 0, 1, 1)\<close>, while a norm per spatial axis gives \<open>(1, 0, 1, 0)\<close> when an axis pairs
  \<open>p\<^sub>i\<close> with \<open>v\<^sub>i\<close>, and \<open>(0, 0, 0, 0)\<close> when the pairs are consecutive entries.
\<close>

theorem A_nonlin_not_per_axis:
  "A_nonlin (example_plant False 3) (contiguous [1, 1, 4] [0, 0, 1, 0])
     \<noteq> Inr (A_nonlin_claimed axis_speeds (example_plant False 3) (1 / 10)
              (contiguous [1, 1, 4] [0, 0, 1, 0]))
   \<and> A_nonlin (example_plant False 3) (contiguous [1, 1, 4] [0, 0, 1, 0])
     \<noteq> Inr (A_nonlin_claimed pair_speeds (example_plant False 3) (1 / 10)
              (contiguous [1, 1, 4] [0, 0, 1, 0]))
   \<and> A_nonlin (example_plant False 3) (contiguous [1, 1, 4] [0, 0, 1, 0])
     = Inr (contiguous [1, 4, 4]
          [1, 0, 1 / 20, 0,
           0, 1, 0, 1 / 20,
           - 3 / 20, 0, 189 / 200, 0,
           0, - 3 / 20, 0, 189 / 200])"
proof -
  have b: "batched 1 4 (contiguous [1, 1, 4] [0, 0, 1, 0])"
    by (simp add: batched_def)
  have f: "\<not> linear_plant (example_plant False 3)" "fric_b2 (example_plant False 3) = Some (1 / 10)"
    by (simp_all add: example_plant_def)
  have pf: "mask (example_plant False 3) = contiguous [2, 2] [0, 0, 1, 1]"
    "shape (A_lin (example_plant False 3)) = [4, 4]"
    "length (elems (A_lin (example_plant False 3))) = 16"
    using plant_ok_example [of False 3] by (simp_all add: plant_ok_def)
  have "A_nonlin (example_plant False 3) (contiguous [1, 1, 4] [0, 0, 1, 0])
      = Inr (contiguous [1, 4, 4] (concat (map (\<lambda>r. A_of (example_plant False 3) r) [[0, 0, 1, 0]])))"
    by (rule A_nonlin_rows [OF f pf b]) simp_all
  then show ?thesis
    by (simp add: A_nonlin_claimed_def row_eval contiguous_def)
qed

subsection \<open>What the rollout returns\<close>

text \<open>
  C3, as far as the code goes.  For a constructed plant whose \<^verbatim>\<open>u_init\<close> has the shape
  (1, 2) (the default has it), a controller that
  answers batches of states with batches of inputs, and noise of shape (b, T, 4) with
  \<open>T \<ge> 1\<close>, \<^verbatim>\<open>rollout\<close> returns the triple \<^verbatim>\<open>(x_log, None, u_log)\<close>: the states as a
  tensor of shape (b, T, 4) and the inputs as one of shape (b, T, 2).  Their entries at
  time step \<open>j\<close> are the state that \<^verbatim>\<open>forward\<close> produces from the state and input before
  step \<open>j\<close> and the \<open>j\<close>-th noise slice, and the controller's answer to that new state.
\<close>

theorem rollout_returns_trajectories:
  assumes "init xbar0 lin xi0 ui0 k0 = Inr p" "wf_tensor xbar0" "wf_opt xi0"
    and "shape (u_init p) = [1, 2]" "length (elems (u_init p)) = 2"
    and "ctrl_ok c b" "data_ok b T data" "0 < T"
  shows "\<exists>X U s'. rollout p c s0 data train = (Inr (X, None, U), s')
    \<and> shape X = [b, T, 4] \<and> length (elems X) = b * (T * 4)
    \<and> shape U = [b, T, 2] \<and> length (elems U) = b * (T * 2)
    \<and> (\<forall>j<T. \<exists>x u s w x' u' s''.
          run_steps p c data (start p c b s0) j = Inr (x, u, s)
          \<and> slice_time data j = Inr w \<and> forward p j x u w = Inr x' \<and> call c j x' s = (u', s'')
          \<and> time_slice b T 4 j (elems X) = elems x' \<and> time_slice b T 2 j (elems U) = elems u')"
proof -
  have ok: "plant_ok p" using assms(1-3) by (rule init_plant_ok)
  obtain X U s where r: "rollout p c s0 data train = (Inr (X, None, U), reset c s)"
    and lg: "logged p c data (start p c b s0) b T (Some (X, U))"
    using rollout_run [OF ok assms(6,7,4,5,8)] by blast
  have sh: "shape X = [b, T, 4]" "length (elems X) = b * (T * 4)"
    "shape U = [b, T, 2]" "length (elems U) = b * (T * 2)"
    and sl: "\<forall>j<T. \<exists>xj uj sj. run_steps p c data (start p c b s0) (Suc j) = Inr (xj, uj, sj)
      \<and> time_slice b T 4 j (elems X) = elems xj \<and> time_slice b T 2 j (elems U) = elems uj"
    using lg by (simp_all add: logged_def)
  have "\<exists>x u s w x' u' s''.
      run_steps p c data (start p c b s0) j = Inr (x, u, s)
      \<and> slice_time data j = Inr w \<and> forward p j x u w = Inr x' \<and> call c j x' s = (u', s'')
      \<and> time_slice b T 4 j (elems X) = elems x' \<and> time_slice b T 2 j (elems U) = elems u'"
    if jT: "j < T" for j
  proof -
    obtain xj uj sj where a: "run_steps p c data (start p c b s0) (Suc j) = Inr (xj, uj, sj)"
      "time_slice b T 4 j (elems X) = elems xj" "time_slice b T 2 j (elems U) = elems uj"
      using sl jT by blast
    from run_steps_Suc_Inr [OF a(1)] a(2,3) show ?thesis by blast
  qed
  then show ?thesis using r sh by blast
qed

theorem rollout_returns_trajectories_witness:
  "init xbar_example True None None 3 = Inr (example_plant True 3)
   \<and> wf_tensor xbar_example \<and> wf_opt None
   \<and> shape (u_init (example_plant True 3)) = [1, 2]
   \<and> length (elems (u_init (example_plant True 3))) = 2
   \<and> ctrl_ok damping_controller 2 \<and> data_ok 2 2 noise_example \<and> (0 :: nat) < 2
   \<and> (\<exists>X U s'. rollout (example_plant True 3) damping_controller 0 noise_example False
          = (Inr (X, None, U), s')
        \<and> X = contiguous [2, 2, 4] [1, 2, 0, 0,  2, 2, 0, 0,  1, 2, 1, 0,  21 / 20, 2, 9 / 10, 0]
        \<and> U = contiguous [2, 2, 2] [0, 0,  0, 0,  - 1, 0,  - (9 / 10), 0]
        \<and> shape X = [2, 2, 4] \<and> length (elems X) = 2 * (2 * 4)
        \<and> shape U = [2, 2, 2] \<and> length (elems U) = 2 * (2 * 2))"
proof -
  have h: "wf_opt None" "shape (u_init (example_plant True 3)) = [1, 2]"
    "length (elems (u_init (example_plant True 3))) = 2"
    "data_ok 2 2 noise_example" "(0 :: nat) < 2"
    by (simp_all add: wf_opt_def example_plant_def data_ok_def noise_example_def)
  obtain X U s' where r:
    "rollout (example_plant True 3) damping_controller 0 noise_example False = (Inr (X, None, U), s')"
    "shape X = [2, 2, 4]" "length (elems X) = 2 * (2 * 4)"
    "shape U = [2, 2, 2]" "length (elems U) = 2 * (2 * 2)"
    using rollout_returns_trajectories [OF init_example [of True 3] wf_xbar_example h(1-3)
        ctrl_ok_damping [of 2] h(4,5), of 0 False]
    by blast
  have "X = contiguous [2, 2, 4] [1, 2, 0, 0,  2, 2, 0, 0,  1, 2, 1, 0,  21 / 20, 2, 9 / 10, 0]"
    "U = contiguous [2, 2, 2] [0, 0,  0, 0,  - 1, 0,  - (9 / 10), 0]"
    using r(1) rollout_example by simp_all
  then show ?thesis
    using init_example [of True 3] wf_xbar_example h ctrl_ok_damping [of 2] r by blast
qed

text \<open>
  C3, as the claim states it, fails in two ways.  What \<^verbatim>\<open>rollout\<close> returns is not two
  sequences but three components, the second of them \<^verbatim>\<open>None\<close>.  And the shapes of the
  logs follow \<^verbatim>\<open>u_init\<close>, which the constructor keeps as it was given: on the plant built
  with a \<^verbatim>\<open>u_init\<close> of shape (3, 2), noise of shape (1, 1, 4) gives a state log of shape
  (3, 1, 4) and an input log of shape (3, 1, 2), not (1, 1, 4) and (1, 1, 2).
\<close>

theorem rollout_returns_triple:
  "rollout (example_plant True 3) damping_controller 0 noise_example False
     = (Inr (contiguous [2, 2, 4] [1, 2, 0, 0,  2, 2, 0, 0,  1, 2, 1, 0,  21 / 20, 2, 9 / 10, 0],
             None,
             contiguous [2, 2, 2] [0, 0,  0, 0,  - 1, 0,  - (9 / 10), 0]), 0)
   \<and> init xbar_example True None (Some (contiguous [3, 2] [0, 0, 0, 0, 0, 0])) 3 = Inr wide_plant
   \<and> rollout wide_plant damping_controller 0 (contiguous [1, 1, 4] [0, 0, 1, 0]) False
     = (Inr (contiguous [3, 1, 4] [1, 2, 1, 0,  1, 2, 1, 0,  1, 2, 1, 0], None,
             contiguous [3, 1, 2] [- 1, 0,  - 1, 0,  - 1, 0]), 0)"
  using rollout_example init_wide rollout_wide_single by (intro conjI)

subsection \<open>Construction and the shape of the initial input\<close>

text \<open>
  C4.  The specification lets construction succeed whenever \<^verbatim>\<open>u_init\<close> reshapes to two
  components.  The code reshapes \<^verbatim>\<open>u_init\<close> on line 27 but keeps the tensor it was given, so
  a \<^verbatim>\<open>u_init\<close> of shape (2,) fails on \<^verbatim>\<open>shape[1]\<close> with an \<^verbatim>\<open>IndexError\<close>, one of shape
  (2, 1) fails the assertion, and one of shape (3, 2), with six components, is accepted.
\<close>

theorem init_keeps_u_init_shape:
  "init xbar_example True None (Some (contiguous [2] [0, 0])) 1 = Inl IndexError
   \<and> init xbar_example True None (Some (contiguous [2, 1] [0, 0])) 1 = Inl AssertionError
   \<and> map_sum id u_init (init xbar_example True None (Some (contiguous [3, 2] [0, 0, 0, 0, 0, 0])) 1)
       = Inr (contiguous [3, 2] [0, 0, 0, 0, 0, 0])
   \<and> init (contiguous [3] [1, 2, 0]) True None None 1 = Inl AssertionError"
  by (simp add: init_def xbar_example_def reshape_1_m1_def contiguous_def compute_A_lin_eq Let_def)

subsection \<open>Noise of the wrong width\<close>

text \<open>
  C5, as far as the code goes.  For a constructed plant whose \<^verbatim>\<open>u_init\<close> has the shape
  (1, 2) and noise of shape (b, T, d) with \<open>T \<ge> 1\<close> and \<open>d \<noteq> 4\<close>: when \<open>b * d\<close> is not a
  multiple of 4, or when \<open>b \<ge> 2\<close> and \<open>b * d \<noteq> 4\<close>, \<^verbatim>\<open>rollout\<close> fails with a
  \<^verbatim>\<open>RuntimeError\<close> in the first \<^verbatim>\<open>forward\<close> (at the view of the noise or at its addition),
  before the controller is called: the controller has been reset once and no trajectory
  is returned.
\<close>

theorem rollout_rejects_noise_width:
  assumes "init xbar0 lin xi0 ui0 k0 = Inr p" "wf_tensor xbar0" "wf_opt xi0"
    and "shape (u_init p) = [1, 2]" "length (elems (u_init p)) = 2"
    and "shape data = [b, T, d]" "0 < T" "d \<noteq> 4"
    and "(b * d) mod 4 \<noteq> 0 \<or> (2 \<le> b \<and> b * d \<noteq> 4)"
  shows "rollout p c s0 data train = (Inl RuntimeError, reset c s0)"
proof -
  let ?x0 = "contiguous [b, 1, 4] (concat (replicate b (elems (x_init p))))"
  let ?u0 = "contiguous [b, 1, 2] (concat (replicate b (elems (u_init p))))"
  have ok: "plant_ok p" using assms(1-3) by (rule init_plant_ok)
  have xi: "shape (x_init p) = [1, 4]" "length (elems (x_init p)) = 4" "state_dim p = 4"
    using ok by (simp_all add: plant_ok_def)
  have r: "repeat_b11 b (x_init p) = Inr ?x0" "repeat_b11 b (u_init p) = Inr ?u0"
    using xi assms(4) by (simp_all add: repeat_b11_row)
  have b0: "batched b 4 ?x0" "batched b 2 ?u0"
    using xi assms(5) by (simp_all add: batched_def)
  obtain w where w: "slice_time data 0 = Inr w" "shape w = [b, 1, d]"
    using assms(6,7) by (simp add: slice_time_def)
  define nf where "nf = contiguous [b, 1, 4] (noiseless_batch p b (elems ?x0) (elems ?u0))"
  have nf: "noiseless_forward p 0 ?x0 ?u0 = Inr nf" "shape nf = [b, 1, 4]"
    unfolding nf_def using noiseless_forward_rows [OF ok b0] by simp_all
  have "bind_err (view_m1 [1, 4] w) (tensor_add nf) = Inl RuntimeError"
  proof (cases "view_m1 [1, 4] w")
    case (Inl e)
    then show ?thesis using view_m1_error [OF Inl] by simp
  next
    case (Inr wv)
    have sh: "shape wv = [(b * d) div 4, 1, 4]"
      using view_m1_shape [OF Inr] w(2) by simp
    have dv: "(b * d) mod 4 = 0"
      using Inr view_m1_indivisible [of w "[1, 4]"] w(2) by auto
    then have b2: "2 \<le> b" "b * d \<noteq> 4" using assms(9) by auto
    have "(b * d) div 4 \<noteq> b"
    proof
      assume "(b * d) div 4 = b"
      then have "b * d = b * 4" using dv by auto
      then show False using b2(1) assms(8) by simp
    qed
    moreover have "(b * d) div 4 \<noteq> 1"
      using dv b2(2) by auto
    ultimately have "tensor_add nf wv = Inl RuntimeError"
      using tensor_add_mismatch [OF nf(2) sh] b2(1) by simp
    then show ?thesis using Inr by simp
  qed
  then have f: "forward p 0 ?x0 ?u0 w = Inl RuntimeError"
    using nf(1) by (simp add: forward_def xi(3))
  have "[0..<T] = 0 # [1..<T]"
    using assms(7) by (simp add: upt_conv_Cons)
  then have "simulate p c data [0..<T] (?x0, ?u0, None, reset c s0) = Inl (RuntimeError, reset c s0)"
    using f by (simp add: w(1))
  then show ?thesis
    using r by (simp add: rollout_def assms(6) Let_def)
qed

theorem rollout_rejects_noise_width_witness:
  "init xbar_example True None None 3 = Inr (example_plant True 3)
   \<and> wf_tensor xbar_example \<and> wf_opt None
   \<and> shape (u_init (example_plant True 3)) = [1, 2]
   \<and> length (elems (u_init (example_plant True 3))) = 2
   \<and> shape (contiguous [2, 3, 8] (replicate 48 0)) = [2, 3, 8]
   \<and> (0 :: nat) < 3 \<and> (8 :: nat) \<noteq> 4 \<and> (2 :: nat) \<le> 2 \<and> (2 :: nat) * 8 \<noteq> 4
   \<and> rollout (example_plant True 3) zero_controller 7 (contiguous [2, 3, 8] (replicate 48 0)) False
       = (Inl RuntimeError, 0)"
proof -
  have h: "wf_opt None" "shape (u_init (example_plant True 3)) = [1, 2]"
    "length (elems (u_init (example_plant True 3))) = 2"
    "shape (contiguous [2, 3, 8] (replicate 48 0)) = [2, 3, 8]"
    "(0 :: nat) < 3" "(8 :: nat) \<noteq> 4" "(2 * 8) mod 4 \<noteq> 0 \<or> ((2 :: nat) \<le> 2 \<and> (2 :: nat) * 8 \<noteq> 4)"
    by (simp_all add: wf_opt_def example_plant_def)
  have "reset zero_controller 7 = 0" by (simp add: zero_controller_def)
  then show ?thesis
    using rollout_rejects_noise_width [OF init_example [of True 3] wf_xbar_example h,
        of zero_controller 7 False]
      init_example [of True 3] wf_xbar_example h(1-4)
    by simp
qed

text \<open>
  C5, as the claim states it, fails for noise of shape (1, 1, 8): the view reads the eight
  entries of the only noise row as two rows of four, the addition broadcasts the single
  state over both, and \<^verbatim>\<open>rollout\<close> returns a trajectory of batch size 2.
\<close>

theorem rollout_reinterprets_wide_noise:
  "rollout (example_plant True 3) zero_controller 0
      (contiguous [1, 1, 8] [1, 0, 0, 0, 0, 1, 0, 0]) False
     = (Inr (contiguous [2, 1, 4] [2, 2, 0, 0, 1, 3, 0, 0], None,
             contiguous [2, 1, 2] [0, 0, 0, 0]), 0)"
proof -
  let ?p = "example_plant True 3"
  let ?x0 = "contiguous [1, 1, 4] [1, 2, 0, 0]"
  let ?u0 = "contiguous [1, 1, 2] [0, 0]"
  let ?w = "\<lparr>shape = [1, 1, 8], strides = [8, 8, 1], elems = [1, 0, 0, 0, 0, 1, 0, 0 :: real]\<rparr>"
  let ?x1 = "contiguous [2, 1, 4] [2, 2, 0, 0, 1, 3, 0, 0]"
  have r: "repeat_b11 1 (x_init ?p) = Inr ?x0" "repeat_b11 1 (u_init ?p) = Inr ?u0"
    by (simp_all add: repeat_b11_row example_plant_def)
  have s: "slice_time (contiguous [1, 1, 8] [1, 0, 0, 0, 0, 1, 0, 0]) 0 = Inr ?w"
    by (simp add: slice_time_3 batch_eval)
  have n: "noiseless_forward ?p 0 ?x0 ?u0 = Inr (contiguous [1, 1, 4] [1, 2, 0, 0])"
    by (subst noiseless_forward_rows [where b = 1, OF plant_ok_example])
       (simp_all add: batched_def batch_eval row_eval)
  have v: "view_m1 [1, 4] ?w
      = Inr \<lparr>shape = [2, 1, 4], strides = [4, 4, 1], elems = [1, 0, 0, 0, 0, 1, 0, 0]\<rparr>"
    by (simp add: view_m1_def compute_stride_def Let_def)
  have a: "tensor_add (contiguous [1, 1, 4] [1, 2, 0, 0])
      \<lparr>shape = [2, 1, 4], strides = [4, 4, 1], elems = [1, 0, 0, 0, 0, 1, 0, 0]\<rparr> = Inr ?x1"
    by (simp add: tensor_add_def broadcast_op_def pad_shape_def Let_def)
  have f: "forward ?p 0 ?x0 ?u0 ?w = Inr ?x1"
    using n v a by (simp add: forward_def example_plant_def)
  have c: "call zero_controller 0 ?x1 0 = (contiguous [2, 1, 2] [0, 0, 0, 0], 1)"
    by (simp add: zero_controller_def numeral_eq_Suc)
  show ?thesis
    using r s f c by (simp add: rollout_def Let_def zero_controller_def)
qed

subsection \<open>The training flag\<close>




subsection \<open>The equilibrium as a fixed point\<close>




subsection \<open>The linear transition matrix\<close>

text \<open>
  C8.  For all construction parameters, \<open>A_lin\<close> is \<open>I + h * A2\<close> with \<open>A2\<close> the block
  matrix of zero, identity, \<open>- k / m\<close> times identity and \<open>- b / m\<close> times identity.
  Changing \<open>k\<close> changes the bottom-left block only, changing \<open>b\<close> the bottom-right block
  only; the top blocks depend on neither.  The plant that \<^verbatim>\<open>__init__\<close> builds has this
  matrix with \<open>h = 0.05\<close>, \<open>m = 1\<close>, \<open>b = 1\<close> and the given \<open>k\<close>.
\<close>

theorem A_lin_is_I_plus_h_A2:
  "compute_A_lin hh m kk bb = Inr (I_plus_h_A2 hh m kk bb)
   \<and> block2 0 0 (I_plus_h_A2 hh m kk bb) = [1, 0, 0, 1]
   \<and> block2 0 1 (I_plus_h_A2 hh m kk bb) = [hh, 0, 0, hh]
   \<and> block2 1 0 (I_plus_h_A2 hh m kk bb) = [hh * (- kk / m), 0, 0, hh * (- kk / m)]
   \<and> block2 1 1 (I_plus_h_A2 hh m kk bb) = [1 + hh * (- bb / m), 0, 0, 1 + hh * (- bb / m)]
   \<and> block2 1 1 (I_plus_h_A2 hh m kk' bb) = block2 1 1 (I_plus_h_A2 hh m kk bb)
   \<and> block2 1 0 (I_plus_h_A2 hh m kk bb') = block2 1 0 (I_plus_h_A2 hh m kk bb)
   \<and> (init xbar0 lin xi0 ui0 k0 = Inr p \<longrightarrow> A_lin p = I_plus_h_A2 (1 / 20) 1 k0 1)"
  by (auto simp: compute_A_lin_eq I_plus_h_A2_def eye4_def A2_blocks_def block2_def init_def
      Let_def split: if_splits)

theorem A_lin_is_I_plus_h_A2_witness:
  "init xbar_example True None None 3 =
     Inr \<lparr>linear_plant = True, xbar = contiguous [1, 4] [1, 2, 0, 0],
          x_init = contiguous [1, 4] [1, 2, 0, 0], u_init = contiguous [1, 2] [0, 0],
          state_dim = 4, in_dim = 2, step_h = 1 / 20, mass = 1, gain_k = 3, damp_b = 1,
          fric_b2 = None, B_in = contiguous [4, 2] [0, 0, 0, 0, 1 / 20, 0, 0, 1 / 20],
          A_lin = I_plus_h_A2 (1 / 20) 1 3 1, mask = contiguous [2, 2] [0, 0, 1, 1]\<rparr>
   \<and> I_plus_h_A2 (1 / 20) 1 3 1 = contiguous [4, 4]
       [1, 0, 1 / 20, 0,
        0, 1, 0, 1 / 20,
        - 3 / 20, 0, 19 / 20, 0,
        0, - 3 / 20, 0, 19 / 20]"
proof -
  have i: "init xbar_example True None None 3 =
     Inr \<lparr>linear_plant = True, xbar = contiguous [1, 4] [1, 2, 0, 0],
          x_init = contiguous [1, 4] [1, 2, 0, 0], u_init = contiguous [1, 2] [0, 0],
          state_dim = 4, in_dim = 2, step_h = 1 / 20, mass = 1, gain_k = 3, damp_b = 1,
          fric_b2 = None, B_in = contiguous [4, 2] [0, 0, 0, 0, 1 / 20, 0, 0, 1 / 20],
          A_lin = contiguous [4, 4]
            [1, 0, 1 / 20, 0, 0, 1, 0, 1 / 20, - 3 / 20, 0, 19 / 20, 0, 0, - 3 / 20, 0, 19 / 20],
          mask = contiguous [2, 2] [0, 0, 1, 1]\<rparr>"
    by (simp add: init_def xbar_example_def reshape_1_m1_def torch_zeros_def compute_A_lin_eq
        compute_B_def smul_def contiguous_def Let_def replicate_2)
  from A_lin_is_I_plus_h_A2 [of "1 / 20" 1 3 1 3 1 xbar_example True None None 3]
  have "A_lin \<lparr>linear_plant = True, xbar = contiguous [1, 4] [1, 2, 0, 0],
          x_init = contiguous [1, 4] [1, 2, 0, 0], u_init = contiguous [1, 2] [0, 0],
          state_dim = 4, in_dim = 2, step_h = 1 / 20, mass = 1, gain_k = 3, damp_b = 1,
          fric_b2 = None, B_in = contiguous [4, 2] [0, 0, 0, 0, 1 / 20, 0, 0, 1 / 20],
          A_lin = contiguous [4, 4]
            [1, 0, 1 / 20, 0, 0, 1, 0, 1 / 20, - 3 / 20, 0, 19 / 20, 0, 0, - 3 / 20, 0, 19 / 20],
          mask = contiguous [2, 2] [0, 0, 1, 1]\<rparr> = I_plus_h_A2 (1 / 20) 1 3 1"
    using i by blast
  then show ?thesis using i by simp
qed

subsection \<open>Batch independence\<close>

text \<open>
  For a constructed plant whose \<^verbatim>\<open>u_init\<close> has the shape (1, 2), the shape that line 27
  is written to give, a controller that is pointwise on batches of two, and noise of
  shape (2, T, 4) with \<open>T \<ge> 1\<close>: the trajectories that \<^verbatim>\<open>rollout\<close> returns on the whole
  batch consist, for each batch entry, of the trajectories it returns on that entry alone
  with the entry's own noise.
\<close>

lemma rollout_batch_independent:
  assumes "init xbar0 lin xi0 ui0 k0 = Inr p" "wf_tensor xbar0" "wf_opt xi0"
    and "shape (u_init p) = [1, 2]" "length (elems (u_init p)) = 2"
    and "ctrl_ok c 1" "ctrl_ok c 2" "ctrl_pointwise c R"
    and "R (reset c sa) (reset c sb) (reset c sc)"
    and "data_ok 2 T data" "0 < T"
  shows "\<exists>X U s X0 U0 s0 X1 U1 s1.
      rollout p c sa data train = (Inr (X, None, U), s)
    \<and> rollout p c sb (batch_entry 0 T data) train = (Inr (X0, None, U0), s0)
    \<and> rollout p c sc (batch_entry 1 T data) train = (Inr (X1, None, U1), s1)
    \<and> elems X = elems X0 @ elems X1 \<and> elems U = elems U0 @ elems U1
    \<and> shape X = [2, T, 4] \<and> shape X0 = [1, T, 4] \<and> shape X1 = [1, T, 4]
    \<and> shape U = [2, T, 2] \<and> shape U0 = [1, T, 2] \<and> shape U1 = [1, T, 2]"
proof -
  let ?d0 = "batch_entry 0 T data" and ?d1 = "batch_entry 1 T data"
  have ok: "plant_ok p" using assms(1-3) by (rule init_plant_ok)
  have d0: "data_ok 1 T ?d0" and d1: "data_ok 1 T ?d1"
    using data_ok_entry [OF assms(10)] by simp_all
  obtain X U s where r: "rollout p c sa data train = (Inr (X, None, U), reset c s)"
    and lg: "logged p c data (start p c 2 sa) 2 T (Some (X, U))"
    using rollout_run [OF ok assms(7,10,4,5,11)] by blast
  obtain X0 U0 s0 where r0: "rollout p c sb ?d0 train = (Inr (X0, None, U0), reset c s0)"
    and lg0: "logged p c ?d0 (start p c 1 sb) 1 T (Some (X0, U0))"
    using rollout_run [OF ok assms(6) d0 assms(4,5,11)] by blast
  obtain X1 U1 s1 where r1: "rollout p c sc ?d1 train = (Inr (X1, None, U1), reset c s1)"
    and lg1: "logged p c ?d1 (start p c 1 sc) 1 T (Some (X1, U1))"
    using rollout_run [OF ok assms(6) d1 assms(4,5,11)] by blast
  have sh: "shape X = [2, T, 4]" "length (elems X) = 2 * (T * 4)"
    "shape U = [2, T, 2]" "length (elems U) = 2 * (T * 2)"
    "shape X0 = [1, T, 4]" "length (elems X0) = T * 4"
    "shape U0 = [1, T, 2]" "length (elems U0) = T * 2"
    "shape X1 = [1, T, 4]" "length (elems X1) = T * 4"
    "shape U1 = [1, T, 2]" "length (elems U1) = T * 2"
    using lg lg0 lg1 by (simp_all add: logged_def)
  have sl: "time_slice 2 T 4 j (elems X) = time_slice 1 T 4 j (elems X0) @ time_slice 1 T 4 j (elems X1)
      \<and> time_slice 2 T 2 j (elems U) = time_slice 1 T 2 j (elems U0) @ time_slice 1 T 2 j (elems U1)"
    if jT: "j < T" for j
  proof -
    have "Suc j \<le> T" using jT by simp
    from run_steps_batch [OF ok assms(6,7,8,10,5,9) this]
    obtain x u z x0 u0 z0 x1 u1 z1 where
      a: "run_steps p c data (start p c 2 sa) (Suc j) = Inr (x, u, z)"
        "run_steps p c ?d0 (start p c 1 sb) (Suc j) = Inr (x0, u0, z0)"
        "run_steps p c ?d1 (start p c 1 sc) (Suc j) = Inr (x1, u1, z1)"
        "elems x = elems x0 @ elems x1" "elems u = elems u0 @ elems u1"
      by blast
    have "time_slice 2 T 4 j (elems X) = elems x" "time_slice 2 T 2 j (elems U) = elems u"
      "time_slice 1 T 4 j (elems X0) = elems x0" "time_slice 1 T 2 j (elems U0) = elems u0"
      "time_slice 1 T 4 j (elems X1) = elems x1" "time_slice 1 T 2 j (elems U1) = elems u1"
      using lg lg0 lg1 jT a(1-3) by (auto simp: logged_def)
    then show ?thesis using a(4,5) by simp
  qed
  have "elems X = elems X0 @ elems X1"
    using sh sl by (intro batch_split_from_slices [of _ T 4]) simp_all
  moreover have "elems U = elems U0 @ elems U1"
    using sh sl by (intro batch_split_from_slices [of _ T 2]) simp_all
  ultimately show ?thesis
    using r r0 r1 sh by blast
qed

lemma rollout_batch_independent_example:
  "init xbar_example True None None 3 = Inr (example_plant True 3)
   \<and> wf_tensor xbar_example \<and> wf_opt None
   \<and> shape (u_init (example_plant True 3)) = [1, 2]
   \<and> length (elems (u_init (example_plant True 3))) = 2
   \<and> ctrl_ok damping_controller 1 \<and> ctrl_ok damping_controller 2
   \<and> ctrl_pointwise damping_controller same_count
   \<and> same_count (reset damping_controller 5) (reset damping_controller 6) (reset damping_controller 7)
   \<and> data_ok 2 2 noise_example \<and> (0 :: nat) < 2
   \<and> batch_entry 0 2 noise_example = contiguous [1, 2, 4] [0, 0, 0, 0, 1, 0, 0, 0]
   \<and> batch_entry 1 2 noise_example = contiguous [1, 2, 4] [0, 0, 1, 0, 0, 0, 0, 0]
   \<and> (\<exists>X U s X0 U0 s0 X1 U1 s1.
        rollout (example_plant True 3) damping_controller 5 noise_example False
          = (Inr (X, None, U), s)
      \<and> rollout (example_plant True 3) damping_controller 6
          (contiguous [1, 2, 4] [0, 0, 0, 0, 1, 0, 0, 0]) False = (Inr (X0, None, U0), s0)
      \<and> rollout (example_plant True 3) damping_controller 7
          (contiguous [1, 2, 4] [0, 0, 1, 0, 0, 0, 0, 0]) False = (Inr (X1, None, U1), s1)
      \<and> elems X = elems X0 @ elems X1 \<and> elems U = elems U0 @ elems U1
      \<and> shape X = [2, 2, 4] \<and> shape X0 = [1, 2, 4] \<and> shape X1 = [1, 2, 4]
      \<and> shape U = [2, 2, 2] \<and> shape U0 = [1, 2, 2] \<and> shape U1 = [1, 2, 2])"
proof -
  have h: "wf_opt None" "shape (u_init (example_plant True 3)) = [1, 2]"
    "length (elems (u_init (example_plant True 3))) = 2"
    by (simp_all add: wf_opt_def example_plant_def)
  have R0: "same_count (reset damping_controller 5) (reset damping_controller 6)
      (reset damping_controller 7)"
    by (simp add: same_count_def damping_controller_def)
  have d: "data_ok 2 2 noise_example" "(0 :: nat) < 2"
    by (simp_all add: data_ok_def noise_example_def)
  have e: "batch_entry 0 2 noise_example = contiguous [1, 2, 4] [0, 0, 0, 0, 1, 0, 0, 0]"
    "batch_entry 1 2 noise_example = contiguous [1, 2, 4] [0, 0, 1, 0, 0, 0, 0, 0]"
    by (simp_all add: batch_entry_def noise_example_def)
  from rollout_batch_independent [OF init_example [of True 3] wf_xbar_example h
      ctrl_ok_damping [of 1] ctrl_ok_damping [of 2] ctrl_pointwise_damping R0 d, of False]
  have "\<exists>X U s X0 U0 s0 X1 U1 s1.
        rollout (example_plant True 3) damping_controller 5 noise_example False
          = (Inr (X, None, U), s)
      \<and> rollout (example_plant True 3) damping_controller 6
          (contiguous [1, 2, 4] [0, 0, 0, 0, 1, 0, 0, 0]) False = (Inr (X0, None, U0), s0)
      \<and> rollout (example_plant True 3) damping_controller 7
          (contiguous [1, 2, 4] [0, 0, 1, 0, 0, 0, 0, 0]) False = (Inr (X1, None, U1), s1)
      \<and> elems X = elems X0 @ elems X1 \<and> elems U = elems U0 @ elems U1
      \<and> shape X = [2, 2, 4] \<and> shape X0 = [1, 2, 4] \<and> shape X1 = [1, 2, 4]
      \<and> shape U = [2, 2, 2] \<and> shape U0 = [1, 2, 2] \<and> shape U1 = [1, 2, 2]"
    unfolding e .
  then show ?thesis
    using init_example [of True 3] wf_xbar_example h ctrl_ok_damping [of 1] ctrl_ok_damping [of 2]
      ctrl_pointwise_damping R0 d e
    by (intro conjI)
qed

text \<open>
  C9.  Batch independence fails on a plant that the constructor was meant to refuse.
  Line 27 reshapes \<^verbatim>\<open>u_init\<close> and drops the result, so a \<^verbatim>\<open>u_init\<close> of shape (3, 2)
  passes the assertion on \<^verbatim>\<open>shape[1]\<close>.  On that plant, with the damping controller
  (which is pointwise, \<open>ctrl_pointwise_damping\<close>), \<^verbatim>\<open>rollout\<close> on noise of batch size 2
  fails with a \<^verbatim>\<open>RuntimeError\<close> in the first step, while on each of the two batch entries
  alone it returns trajectories, of batch size 3.
\<close>

theorem rollout_batch_wide_u_init:
  "init xbar_example True None (Some (contiguous [3, 2] [0, 0, 0, 0, 0, 0])) 3 = Inr wide_plant
   \<and> rollout wide_plant damping_controller 0 noise_pair False = (Inl RuntimeError, 0)
   \<and> rollout wide_plant damping_controller 0 (batch_entry 0 1 noise_pair) False
     = (Inr (contiguous [3, 1, 4] [1, 2, 0, 0,  1, 2, 0, 0,  1, 2, 0, 0], None,
             contiguous [3, 1, 2] [0, 0,  0, 0,  0, 0]), 0)
   \<and> rollout wide_plant damping_controller 0 (batch_entry 1 1 noise_pair) False
     = (Inr (contiguous [3, 1, 4] [1, 2, 1, 0,  1, 2, 1, 0,  1, 2, 1, 0], None,
             contiguous [3, 1, 2] [- 1, 0,  - 1, 0,  - 1, 0]), 0)"
  using init_wide rollout_wide_pair rollout_wide_single_still rollout_wide_single
  unfolding batch_entry_noise_pair by (intro conjI)

subsection \<open>A horizon of zero\<close>

text \<open>
  When the noise has horizon 0 the loop never runs, the logs stay unbound, and
  \<^verbatim>\<open>rollout\<close> fails with \<^verbatim>\<open>UnboundLocalError\<close> at its \<^verbatim>\<open>return\<close>, after the second
  \<^verbatim>\<open>reset()\<close>: the controller is left reset twice, with no call in between.  This holds
  for every constructed plant whose \<^verbatim>\<open>u_init\<close> has rank at most 3, so that
  \<^verbatim>\<open>repeat\<close> accepts it; the shape (1, 2) that line 27 is written to give is of rank 2.
\<close>

lemma rollout_zero_horizon_fails:
  assumes "init xbar0 lin xi0 ui0 k0 = Inr p" "length (shape (u_init p)) \<le> 3"
    and "shape data = b # 0 # rest"
  shows "rollout p c s0 data train = (Inl UnboundLocalError, reset c (reset c s0))"
proof -
  have "shape (x_init p) = [1, 4]"
    using assms(1)
    by (auto simp: init_def Let_def reshape_1_m1_def split: if_splits option.splits
        simp: bind_err_def compute_A_lin_eq)
  then obtain x where x: "repeat_b11 b (x_init p) = Inr x"
    by (simp add: repeat_b11_row)
  have "length (pad_shape 3 (shape (u_init p))) = 3"
    using assms(2) by (simp add: pad_shape_def)
  then obtain a0 a1 a2 where "pad_shape 3 (shape (u_init p)) = [a0, a1, a2]"
    using len3 by blast
  then obtain u where u: "repeat_b11 b (u_init p) = Inr u"
    by (simp add: repeat_b11_def)
  show ?thesis
    by (simp add: rollout_def assms(3) x u Let_def)
qed

lemma rollout_zero_horizon_fails_example:
  "init xbar_example True None None 3 = Inr (example_plant True 3)
   \<and> length (shape (u_init (example_plant True 3))) \<le> 3
   \<and> shape (contiguous [2, 0, 4] []) = 2 # 0 # [4]
   \<and> rollout (example_plant True 3) damping_controller 7 (contiguous [2, 0, 4] []) False
       = (Inl UnboundLocalError, 0)"
proof -
  have h: "length (shape (u_init (example_plant True 3))) \<le> 3"
    "shape (contiguous [2, 0, 4] []) = 2 # 0 # [4]"
    by (simp_all add: example_plant_def)
  have "reset damping_controller (reset damping_controller 7) = 0"
    by (simp add: damping_controller_def)
  then show ?thesis
    using rollout_zero_horizon_fails [OF init_example [of True 3] h, of damping_controller 7 False]
      init_example [of True 3] h
    by simp
qed

text \<open>
  C10.  With a horizon of 0 the controller is not always reset twice before the failure.
  Line 27 reshapes \<^verbatim>\<open>u_init\<close> and drops the result, so a \<^verbatim>\<open>u_init\<close> of shape
  (1, 2, 1, 1), two components, is stored with rank 4.  On that plant
  \<^verbatim>\<open>repeat(b, 1, 1)\<close> on line 120 fails with a \<^verbatim>\<open>RuntimeError\<close> before the loop is
  reached: the controller that counts its resets has been reset once.  On the plant with
  the default \<^verbatim>\<open>u_init\<close> the failure is the \<^verbatim>\<open>UnboundLocalError\<close> after two resets.
\<close>

theorem rollout_zero_horizon_deep_u_init:
  "init xbar_example True None (Some (contiguous [1, 2, 1, 1] [0, 0])) 3 = Inr deep_plant
   \<and> rollout deep_plant reset_counter 0 (contiguous [2, 0, 4] []) False = (Inl RuntimeError, 1)
   \<and> rollout (example_plant True 3) reset_counter 0 (contiguous [2, 0, 4] []) False
     = (Inl UnboundLocalError, 2)"
  using init_deep rollout_deep_fails [of reset_counter 0 False]
    rollout_example_zero_horizon [of False]
  by (simp add: reset_counter_def)

end
